theory Spec2Isabelle
  imports Complex_Main "HOL-Library.Signed_Division" "HOL-Library.AList"
    "HOL-Library.Code_Target_Numeral"
begin

section \<open>JavaScript values used by the gateway\<close>

text \<open>
  The TypeScript sources compute with strings, BigInt values and IEEE-754 doubles. Strings are
  modelled as lists of 8-bit code units, BigInt values as \<^typ>\<open>int\<close>, and a thrown exception
  as the left summand of a result.
\<close>

datatype budget_code = BUDGET_EXCEEDED | PER_REQUEST_LIMIT | DOMAIN_NOT_ALLOWED

datatype payment_code =
  PAYMENT_FAILED | FACILITATOR_ERROR | INSUFFICIENT_FUNDS | SIGNING_FAILED | INVALID_402_RESPONSE

datatype js_error =
    SyntaxError
  | RangeError
  | JsError string
  | X402BudgetError string budget_code
  | X402PaymentError string payment_code
  | X402NetworkError string
  | Unmodelled string

text \<open>
  \<open>JsError msg\<close> is a plain \<open>Error(msg)\<close> (or one of its subclasses that the code does not
  tell apart). \<open>Unmodelled\<close> marks where the embedding does not follow the source:
  \<open>Number.prototype.toString\<close> of a finite double that is not an integer below \<open>2^53\<close> in
  magnitude (from \<open>2^53\<close> on JavaScript prints the shortest digits that read back as the
  double, and from \<open>10^21\<close> on exponent notation), and \<open>toFixed\<close> of a double from \<open>10^21\<close>
  on. These digits are not computed here: a run that meets such a double ends in
  \<open>Unmodelled\<close>, and nothing is said about what the source does there.
\<close>

subsection \<open>Decimal text\<close>

fun dec :: "nat \<Rightarrow> string" where
  "dec n = (if n < 10 then [''0123456789'' ! n]
            else dec (n div 10) @ [''0123456789'' ! (n mod 10)])"

declare dec.simps [simp del]

definition BigInt_toString :: "int \<Rightarrow> string" where
  "BigInt_toString i = (if i < 0 then CHR ''-'' # dec (nat (- i)) else dec (nat i))"

definition is_digit :: "char \<Rightarrow> bool" where
  "is_digit c = (c \<in> set ''0123456789'')"

definition digit_of :: "char \<Rightarrow> nat option" where
  "digit_of c =
     (let n = (of_char c :: nat)
      in if 48 \<le> n \<and> n \<le> 57 then Some (n - 48)
         else if 97 \<le> n \<and> n \<le> 122 then Some (n - 87)
         else if 65 \<le> n \<and> n \<le> 90 then Some (n - 55)
         else None)"

fun parse_digits :: "nat \<Rightarrow> nat \<Rightarrow> string \<Rightarrow> nat option" where
  "parse_digits b acc [] = Some acc"
| "parse_digits b acc (c # cs) =
     (case digit_of c of
        None \<Rightarrow> None
      | Some d \<Rightarrow> if d < b then parse_digits b (acc * b + d) cs else None)"

definition parse_radix :: "nat \<Rightarrow> string \<Rightarrow> nat option" where
  "parse_radix b cs = (if cs = [] then None else parse_digits b 0 cs)"

definition is_space :: "char \<Rightarrow> bool" where
  "is_space c = ((of_char c :: nat) \<in> {9, 10, 11, 12, 13, 32, 160})"

definition trim :: "string \<Rightarrow> string" where
  "trim s = rev (dropWhile is_space (rev (dropWhile is_space s)))"

definition startsWith :: "string \<Rightarrow> string \<Rightarrow> bool" where
  "startsWith s p = (take (length p) s = p)"

text \<open>\<open>BigInt(text)\<close>: the StringToBigInt grammar, SyntaxError outside it.\<close>

definition BigInt_of_string :: "string \<Rightarrow> js_error + int" where
  "BigInt_of_string s =
     (let t = trim s;
          radix = (\<lambda>b r. case parse_radix b r of None \<Rightarrow> Inl SyntaxError | Some n \<Rightarrow> Inr (int n))
      in if t = [] then Inr 0
         else if startsWith t ''0x'' \<or> startsWith t ''0X'' then radix 16 (drop 2 t)
         else if startsWith t ''0o'' \<or> startsWith t ''0O'' then radix 8 (drop 2 t)
         else if startsWith t ''0b'' \<or> startsWith t ''0B'' then radix 2 (drop 2 t)
         else if hd t = CHR ''-'' then
           (case parse_radix 10 (tl t) of None \<Rightarrow> Inl SyntaxError | Some n \<Rightarrow> Inr (- int n))
         else if hd t = CHR ''+'' then radix 10 (tl t)
         else radix 10 t)"

subsection \<open>Doubles\<close>

text \<open>
  A finite double is \<open>Num m e\<close>, the number \<open>m * 2^e\<close>; results are kept with \<open>m\<close> odd (or
  \<open>Num 0 0\<close>), so equal doubles are equal terms. The two zeros of IEEE-754 are one value
  here: the code in scope never divides by zero or prints the sign of a zero.
\<close>

datatype number = NaN | PosInf | NegInf | Num int int

fun val :: "number \<Rightarrow> rat" where
  "val (Num m e) = of_int m * 2 powi e"
| "val _ = 0"

fun nbits :: "nat \<Rightarrow> nat" where
  "nbits n = (if n = 0 then 0 else Suc (nbits (n div 2)))"

declare nbits.simps [simp del]

function canon :: "int \<Rightarrow> int \<Rightarrow> number" where
  "canon m e = (if m = 0 then Num 0 0 else if even m then canon (m div 2) (e + 1) else Num m e)"
  by pat_completeness auto
termination
  by (relation "measure (\<lambda>(m, e). nat \<bar>m\<bar>)") auto

declare canon.simps [simp del]

text \<open>Round-half-even of \<open>n / d\<close> for \<open>0 \<le> n\<close> and \<open>0 < d\<close>.\<close>

definition rne_div :: "int \<Rightarrow> int \<Rightarrow> int" where
  "rne_div n d =
     (let f = n div d; r = n mod d
      in if 2 * r < d then f else if d < 2 * r then f + 1
         else if even f then f else f + 1)"

text \<open>
  \<open>fl_ratio p q\<close> is the double nearest to \<open>p / q\<close> (for \<open>0 < q\<close>), ties to even: \<open>e\<close> is
  the binary exponent of \<open>|p| / q\<close>, the spacing of doubles there is \<open>2^k\<close> with
  \<open>k = max (e - 52) (-1074)\<close>, and a result of \<open>2^1024\<close> or more is an infinity.
\<close>

definition fl_ratio :: "int \<Rightarrow> int \<Rightarrow> number" where
  "fl_ratio p q =
     (if p = 0 then Num 0 0
      else
        let a = \<bar>p\<bar>;
            e0 = int (nbits (nat a)) - int (nbits (nat q));
            e = (if (if 0 \<le> e0 then q * 2 ^ nat e0 \<le> a else q \<le> a * 2 ^ nat (- e0))
                 then e0 else e0 - 1);
            k = max (e - 52) (- 1074);
            m = (if 0 \<le> k then rne_div a (q * 2 ^ nat k) else rne_div (a * 2 ^ nat (- k)) q)
        in if 1024 < int (nbits (nat m)) + k then (if p < 0 then NegInf else PosInf)
           else canon (if p < 0 then - m else m) k)"

definition number_of_int :: "int \<Rightarrow> number" where
  "number_of_int i = fl_ratio i 1"

definition is_zero :: "number \<Rightarrow> bool" where
  "is_zero x = (case x of Num m e \<Rightarrow> m = 0 | _ \<Rightarrow> False)"

definition is_neg :: "number \<Rightarrow> bool" where
  "is_neg x = (case x of Num m e \<Rightarrow> m < 0 | NegInf \<Rightarrow> True | _ \<Rightarrow> False)"

text \<open>The \<open>*\<close> of two doubles.\<close>

fun js_mul :: "number \<Rightarrow> number \<Rightarrow> number" where
  "js_mul (Num m1 e1) (Num m2 e2) =
     (let e = e1 + e2
      in if 0 \<le> e then fl_ratio (m1 * m2 * 2 ^ nat e) 1 else fl_ratio (m1 * m2) (2 ^ nat (- e)))"
| "js_mul NaN y = NaN"
| "js_mul x NaN = NaN"
| "js_mul x y =
     (if is_zero x \<or> is_zero y then NaN
      else if is_neg x = is_neg y then PosInf else NegInf)"

text \<open>The \<open>/\<close> of two doubles (a zero divisor is taken as \<open>+0\<close>).\<close>

fun js_div :: "number \<Rightarrow> number \<Rightarrow> number" where
  "js_div (Num m1 e1) (Num m2 e2) =
     (if m2 = 0 then (if m1 = 0 then NaN else if m1 < 0 then NegInf else PosInf)
      else
        let s = (if m2 < 0 then - m1 else m1); d = \<bar>m2\<bar>; e = e1 - e2
        in if 0 \<le> e then fl_ratio (s * 2 ^ nat e) d else fl_ratio s (d * 2 ^ nat (- e)))"
| "js_div NaN y = NaN"
| "js_div x NaN = NaN"
| "js_div (Num m e) y = Num 0 0"
| "js_div x (Num m e) = (if is_neg x = (m < 0) then PosInf else NegInf)"
| "js_div x y = NaN"

text \<open>\<open>Math.round\<close>: the nearest integer, a tie going up.\<close>

fun Math_round :: "number \<Rightarrow> number" where
  "Math_round (Num m e) =
     (if 0 \<le> e then Num m e
      else canon ((2 * m + 2 ^ nat (- e)) div 2 ^ nat (1 - e)) 0)"
| "Math_round x = x"

text \<open>The integer a double is, when it is one.\<close>

fun int_of_number :: "number \<Rightarrow> int option" where
  "int_of_number (Num m e) =
     (if 0 \<le> e then Some (m * 2 ^ nat e)
      else if m mod 2 ^ nat (- e) = 0 then Some (m div 2 ^ nat (- e)) else None)"
| "int_of_number x = None"

text \<open>\<open>BigInt(x)\<close> for a double: RangeError unless it is an integer.\<close>

definition BigInt_of_number :: "number \<Rightarrow> js_error + int" where
  "BigInt_of_number x = (case int_of_number x of None \<Rightarrow> Inl RangeError | Some i \<Rightarrow> Inr i)"

text \<open>\<open>isNaN(x)\<close>.\<close>

definition isNaN :: "number \<Rightarrow> bool" where
  "isNaN x = (x = NaN)"

text \<open>\<open>x < y\<close> on doubles: false as soon as one of them is \<open>NaN\<close>.\<close>

fun js_less :: "number \<Rightarrow> number \<Rightarrow> bool" where
  "js_less (Num m1 e1) (Num m2 e2) = (val (Num m1 e1) < val (Num m2 e2))"
| "js_less NaN y = False"
| "js_less x NaN = False"
| "js_less PosInf y = False"
| "js_less x PosInf = True"
| "js_less NegInf y = (y \<noteq> NegInf)"
| "js_less x NegInf = False"

subsection \<open>Reading and printing doubles\<close>

definition digits_val :: "string \<Rightarrow> nat" where
  "digits_val ds = foldl (\<lambda>a c. a * 10 + ((of_char c :: nat) - 48)) 0 ds"

definition split_sign :: "string \<Rightarrow> bool \<times> string" where
  "split_sign t =
     (case t of
        [] \<Rightarrow> (False, t)
      | c # r \<Rightarrow> if c = CHR ''-'' then (True, r) else if c = CHR ''+'' then (False, r) else (False, t))"

text \<open>The double nearest to \<open>n * 10^x\<close>, negated when \<open>neg\<close>.\<close>

definition decimal_number :: "bool \<Rightarrow> nat \<Rightarrow> int \<Rightarrow> number" where
  "decimal_number neg n x =
     (let s = (if neg then - int n else int n)
      in if 0 \<le> x then fl_ratio (s * 10 ^ nat x) 1 else fl_ratio s (10 ^ nat (- x)))"

text \<open>
  The exponent part of a decimal literal (\<open>e\<close>, a sign, digits); it counts only when at least
  one digit follows.
\<close>

definition exponent_part :: "string \<Rightarrow> int" where
  "exponent_part r =
     (case r of
        [] \<Rightarrow> 0
      | c # r' \<Rightarrow>
          if c = CHR ''e'' \<or> c = CHR ''E'' then
            (let (neg, r'') = split_sign r'; ds = takeWhile is_digit r''
             in if ds = [] then 0 else if neg then - int (digits_val ds) else int (digits_val ds))
          else 0)"

text \<open>
  \<open>parseFloat\<close>: leading white space is skipped and the longest prefix that is a decimal
  literal is read; \<open>NaN\<close> when there is none.
\<close>

definition parseFloat :: "string \<Rightarrow> number" where
  "parseFloat s =
     (let (neg, u) = split_sign (dropWhile is_space s)
      in if startsWith u ''Infinity'' then (if neg then NegInf else PosInf)
         else
           let ip = takeWhile is_digit u;
               r1 = dropWhile is_digit u;
               (fp, r2) = (case r1 of
                             [] \<Rightarrow> ([], r1)
                           | c # r \<Rightarrow> if c = CHR ''.'' then (takeWhile is_digit r, dropWhile is_digit r)
                                      else ([], r1))
           in if ip = [] \<and> fp = [] then NaN
              else decimal_number neg (digits_val (ip @ fp)) (exponent_part r2 - int (length fp)))"

text \<open>\<open>parseInt(text, 10)\<close>.\<close>

definition parseInt10 :: "string \<Rightarrow> number" where
  "parseInt10 s =
     (let (neg, u) = split_sign (dropWhile is_space s); ds = takeWhile is_digit u
      in if ds = [] then NaN else decimal_number neg (digits_val ds) 0)"

text \<open>
  \<open>Number.prototype.toString\<close> on the doubles that print as their exact digits: integers
  below \<open>2^53\<close> in magnitude, and the infinities and \<open>NaN\<close>.
\<close>

definition Number_toString :: "number \<Rightarrow> js_error + string" where
  "Number_toString x =
     (case x of
        NaN \<Rightarrow> Inr ''NaN''
      | PosInf \<Rightarrow> Inr ''Infinity''
      | NegInf \<Rightarrow> Inr ''-Infinity''
      | Num m e \<Rightarrow>
          (case int_of_number x of
             None \<Rightarrow> Inl (Unmodelled ''Number.prototype.toString of a fraction'')
           | Some i \<Rightarrow>
               if \<bar>i\<bar> < 2 ^ 53 then Inr (BigInt_toString i)
               else Inl (Unmodelled ''Number.prototype.toString of an integer from 2^53 on'')))"

text \<open>
  \<open>x.toFixed(d)\<close>: RangeError unless \<open>0 \<le> d \<le> 100\<close>; below \<open>10^21\<close> the digits of
  \<open>n = floor(|x| * 10^d + 1/2)\<close> with a point before the last \<open>d\<close> of them.
\<close>

definition fixed_digits :: "nat \<Rightarrow> nat \<Rightarrow> string" where
  "fixed_digits n d =
     (let s = dec n;
          s' = (if d = 0 then s else replicate (Suc d - length s) CHR ''0'' @ s)
      in if d = 0 then s'
         else take (length s' - d) s' @ CHR ''.'' # drop (length s' - d) s')"

definition toFixed :: "number \<Rightarrow> int \<Rightarrow> js_error + string" where
  "toFixed x d =
     (if d < 0 \<or> 100 < d then Inl RangeError
      else case x of
        NaN \<Rightarrow> Inr ''NaN''
      | PosInf \<Rightarrow> Inr ''Infinity''
      | NegInf \<Rightarrow> Inr ''-Infinity''
      | Num m e \<Rightarrow>
          let a = \<bar>m\<bar>;
              big = (if 0 \<le> e then 10 ^ 21 \<le> a * 2 ^ nat e else 10 ^ 21 * 2 ^ nat (- e) \<le> a);
              n = (if 0 \<le> e then a * 2 ^ nat e * 10 ^ nat d
                   else (2 * a * 10 ^ nat d + 2 ^ nat (- e)) div 2 ^ nat (1 - e))
          in if big then Inl (Unmodelled ''Number.prototype.toFixed in exponent notation'')
             else Inr ((if m < 0 then [CHR ''-''] else []) @ fixed_digits (nat n) (nat d)))"

section \<open>Core: prices\<close>

definition USDC_DECIMALS :: int where
  "USDC_DECIMALS = 6"

text \<open>
  \<open>parsePrice\<close> and \<open>formatPrice\<close> on a text argument, which is what every caller in the
  facilitator and the agent passes (the sources also accept a double).
\<close>

definition parsePrice :: "string \<Rightarrow> js_error + string" where
  "parsePrice price =
     (let cleanPrice = trim (if startsWith price ''$'' then drop 1 price else price);
          numericPrice = parseFloat cleanPrice
      in if isNaN numericPrice \<or> is_neg numericPrice
         then Inl (JsError (''Invalid price: '' @ price))
         else
           let multiplier = number_of_int (10 ^ nat USDC_DECIMALS);
               smallestUnit = Math_round (js_mul numericPrice multiplier)
           in Number_toString smallestUnit)"

record format_options =
  symbol :: "bool option"
  decimals :: "int option"

definition formatPrice :: "string \<Rightarrow> format_options \<Rightarrow> js_error + string" where
  "formatPrice amount options =
     (let sym = (case symbol options of None \<Rightarrow> True | Some b \<Rightarrow> b);
          decs = (case decimals options of None \<Rightarrow> 2 | Some d \<Rightarrow> d);
          numericAmount = parseInt10 amount
      in if isNaN numericAmount \<or> is_neg numericAmount
         then Inl (JsError (''Invalid amount: '' @ amount))
         else
           let divisor = number_of_int (10 ^ nat USDC_DECIMALS);
               price = js_div numericAmount divisor
           in case toFixed price (min decs USDC_DECIMALS) of
                Inl err \<Rightarrow> Inl err
              | Inr formatted \<Rightarrow> Inr (if sym then CHR ''$'' # formatted else formatted))"

text \<open>\<open>formatPrice(parsePrice(p), {symbol: false, decimals: 6})\<close>.\<close>

definition format_parsed6 :: "string \<Rightarrow> js_error + string" where
  "format_parsed6 p =
     (case parsePrice p of
        Inl err \<Rightarrow> Inl err
      | Inr a \<Rightarrow> formatPrice a \<lparr>symbol = Some False, decimals = Some 6\<rparr>)"

text \<open>
  The canonical 6-decimal representation of a plain decimal literal, in the words of the
  specification: the integer digits, a point, and the fraction digits filled with zeros to six.
\<close>

definition canonical6 :: "string \<Rightarrow> string" where
  "canonical6 p =
     (let ip = takeWhile (\<lambda>c. c \<noteq> CHR ''.'') p;
          fp = drop 1 (dropWhile (\<lambda>c. c \<noteq> CHR ''.'') p)
      in ip @ CHR ''.'' # take 6 (fp @ replicate 6 CHR ''0''))"

section \<open>Facilitator: fee calculation\<close>

record FeeBreakdown =
  totalAmount :: string
  publisherAmount :: string
  feeAmount :: string
  feePercent :: number

text \<open>\<open>calculateFee\<close> of the facilitator; BigInt \<open>/\<close> truncates towards zero.\<close>

definition calculateFee :: "string \<Rightarrow> number \<Rightarrow> js_error + FeeBreakdown" where
  "calculateFee amount feePct =
     (case BigInt_of_string amount of
        Inl err \<Rightarrow> Inl err
      | Inr tot \<Rightarrow>
          (case BigInt_of_number (Math_round (js_mul feePct (number_of_int 100))) of
             Inl err \<Rightarrow> Inl err
           | Inr feeBps \<Rightarrow>
               let fee = (tot * feeBps) sdiv 10000;
                   publisher = tot - fee
               in Inr \<lparr>totalAmount = amount,
                        publisherAmount = BigInt_toString publisher,
                        feeAmount = BigInt_toString fee,
                        feePercent = feePct\<rparr>))"

section \<open>Core: constants and wire types\<close>

datatype X402Network = base_mainnet | base_sepolia

definition NUMERIC_CHAIN_IDS :: "(X402Network \<times> int) list" where
  "NUMERIC_CHAIN_IDS = [(base_mainnet, 8453), (base_sepolia, 84532)]"

definition USDC_ADDRESSES :: "X402Network \<Rightarrow> string" where
  "USDC_ADDRESSES n =
     (case n of
        base_mainnet \<Rightarrow> ''0x833589fCD6eDb6E08f4c7C32D4f71b54bdA02913''
      | base_sepolia \<Rightarrow> ''0x036CbD53842c5426634e7929541eC2318f3dCF7e'')"

definition DEFAULT_RECEIPT_TTL :: int where
  "DEFAULT_RECEIPT_TTL = 86400"

definition DEFAULT_FACILITATOR_URL :: string where
  "DEFAULT_FACILITATOR_URL = ''https://x402.org/facilitator''"

text \<open>
  \<open>TransferAuthorization\<close> and \<open>FacilitatorPayload\<close> at their declared types; the bounds of the
  validity window are unix seconds, kept as integers. The fields \<open>from\<close>, \<open>to\<close> and \<open>value\<close>
  carry a prefix because their names are reserved words here.
\<close>

record TransferAuthorization =
  auth_from :: string
  auth_to :: string
  auth_value :: string
  validAfter :: int
  validBefore :: int
  nonce :: string

record SignedPayload =
  signature :: string
  authorization :: TransferAuthorization

record FacilitatorPayload =
  x402Version :: int
  scheme :: string
  network :: string
  payload :: SignedPayload
  resource :: string

text \<open>The message an engine or library error carries: its wording for built-in errors is
  not modelled.\<close>

definition error_message :: "js_error \<Rightarrow> string" where
  "error_message err =
     (case err of
        SyntaxError \<Rightarrow> ''SyntaxError''
      | RangeError \<Rightarrow> ''RangeError''
      | JsError m \<Rightarrow> m
      | X402BudgetError m c \<Rightarrow> m
      | X402PaymentError m c \<Rightarrow> m
      | X402NetworkError m \<Rightarrow> m
      | Unmodelled m \<Rightarrow> m)"

text \<open>A text that is present and not empty, which is what \<open>if (x)\<close> asks of an optional text.\<close>

definition truthy :: "string option \<Rightarrow> string option" where
  "truthy x = (case x of None \<Rightarrow> None | Some s \<Rightarrow> if s = [] then None else Some s)"

section \<open>Core: receipts\<close>

record X402Receipt =
  receipt_id :: string
  contentId :: string
  payer :: string
  payee :: string
  amount :: string
  currency :: string
  txHash :: string
  chainId :: int
  paidAt :: int
  expiresAt :: int
  facilitator :: string

text \<open>Text of a non-negative integer in radix 36, as \<open>Date.now().toString(36)\<close> prints it.\<close>

fun base36 :: "nat \<Rightarrow> string" where
  "base36 n =
     (if n < 36 then [''0123456789abcdefghijklmnopqrstuvwxyz'' ! n]
      else base36 (n div 36) @ [''0123456789abcdefghijklmnopqrstuvwxyz'' ! (n mod 36)])"

declare base36.simps [simp del]

text \<open>
  \<open>generateReceiptId\<close>: the clock in radix 36 followed by eight characters of
  \<open>Math.random().toString(36)\<close>, which are an input here.
\<close>

definition generateReceiptId :: "int \<Rightarrow> string \<Rightarrow> string" where
  "generateReceiptId nowMs random36 = ''rcpt_'' @ base36 (nat nowMs) @ random36"

record receipt_params =
  p_contentId :: string
  p_payer :: string
  p_payee :: string
  p_amount :: string
  p_currency :: "string option"
  p_txHash :: string
  p_chainId :: int
  p_facilitator :: "string option"
  p_ttlSeconds :: "int option"

text \<open>\<open>buildReceipt\<close>; \<open>nowMs\<close> and \<open>idMs\<close> are its two readings of \<open>Date.now()\<close>.\<close>

definition buildReceipt :: "receipt_params \<Rightarrow> int \<Rightarrow> int \<Rightarrow> string \<Rightarrow> X402Receipt" where
  "buildReceipt params nowMs idMs random36 =
     (let now = nowMs div 1000;
          ttl = (case p_ttlSeconds params of None \<Rightarrow> DEFAULT_RECEIPT_TTL | Some t \<Rightarrow> t)
      in \<lparr>receipt_id = generateReceiptId idMs random36,
          contentId = p_contentId params,
          payer = p_payer params,
          payee = p_payee params,
          amount = p_amount params,
          currency = (case p_currency params of None \<Rightarrow> ''USDC'' | Some c \<Rightarrow> c),
          txHash = p_txHash params,
          chainId = p_chainId params,
          paidAt = now,
          expiresAt = now + ttl,
          facilitator = (case p_facilitator params of
                           None \<Rightarrow> ''https://x402.org/facilitator'' | Some f \<Rightarrow> f)\<rparr>)"

subsection \<open>Signed tokens\<close>

text \<open>
  The receipt token is a compact JWT made and checked by the \<open>jose\<close> library. Its three
  base64url segments are kept decoded: a header, the claims and the signature; a text that
  is not such a token is \<open>Malformed\<close>. The algorithms are the two the gateway uses. The
  signature primitives are parameters: HMAC-SHA256 as a function of the key and the signing
  input, ECDSA P-256 verification as a predicate, and whether a text imports as an SPKI key.
\<close>

datatype jwt_alg = HS256 | ES256

record jwt_header =
  alg :: jwt_alg
  jwt_typ :: string

record jwt_payload =
  receipt :: X402Receipt
  jwt_sub :: string
  jwt_iat :: int
  jwt_exp :: int

datatype token = Malformed string | Compact jwt_header jwt_payload string

record crypto =
  hmac_sha256 :: "string \<Rightarrow> jwt_header \<times> jwt_payload \<Rightarrow> string"
  es256_verify :: "string \<Rightarrow> jwt_header \<times> jwt_payload \<Rightarrow> string \<Rightarrow> bool"
  importSPKI :: "string \<Rightarrow> bool"

text \<open>
  \<open>createReceiptToken\<close>: \<open>SignJWT\<close> with the receipt as claims, signed with HS256. The
  library's \<open>sign\<close> refuses a key of length zero, so an empty secret is an exception.
\<close>

definition createReceiptToken :: "crypto \<Rightarrow> X402Receipt \<Rightarrow> string \<Rightarrow> js_error + token" where
  "createReceiptToken cr r secret =
     (let h = \<lparr>alg = HS256, jwt_typ = ''JWT''\<rparr>;
          p = \<lparr>receipt = r, jwt_sub = payer r, jwt_iat = paidAt r, jwt_exp = expiresAt r\<rparr>
      in if secret = [] then Inl (JsError ''Zero-length key is not supported'')
         else Inr (Compact h p (hmac_sha256 cr secret (h, p))))"

datatype verify_key = Secret string | PublicKey string

text \<open>
  \<open>jose.jwtVerify\<close>: the signature must verify under the key for the header's algorithm, and
  the \<open>exp\<close> claim (\<open>jwt_exp\<close>) must lie after the library's clock (in seconds); \<open>jose.decodeJwt\<close> reads
  the claims and checks nothing.
\<close>

definition jwtVerify :: "crypto \<Rightarrow> token \<Rightarrow> verify_key \<Rightarrow> int \<Rightarrow> js_error + jwt_payload" where
  "jwtVerify cr tok key now =
     (case tok of
        Malformed t \<Rightarrow> Inl (JsError ''Invalid Compact JWS'')
      | Compact h p sg \<Rightarrow>
          let ok = (case key of
                      Secret k \<Rightarrow> alg h = HS256 \<and> sg = hmac_sha256 cr k (h, p)
                    | PublicKey k \<Rightarrow> alg h = ES256 \<and> es256_verify cr k (h, p) sg)
          in if \<not> ok then Inl (JsError ''signature verification failed'')
             else if jwt_exp p \<le> now then Inl (JsError (CHR 0x22 # ''exp'' @ CHR 0x22 # '' claim timestamp check failed''))
             else Inr p)"

definition decodeJwt :: "token \<Rightarrow> js_error + jwt_payload" where
  "decodeJwt tok =
     (case tok of
        Malformed t \<Rightarrow> Inl (JsError ''Invalid JWT'')
      | Compact h p sg \<Rightarrow> Inr p)"

record verify_options =
  jwtSecret :: "string option"
  facilitatorPublicKey :: "string option"
  expectedContentId :: "string option"

record verify_result =
  valid :: bool
  verified_receipt :: "X402Receipt option"
  verify_error :: "string option"

text \<open>
  \<open>verifyReceipt\<close>; \<open>libNowMs\<close> is the clock as \<open>jose\<close> reads it and \<open>nowMs\<close> the reading of
  \<open>Date.now()\<close> in the expiry check.
\<close>

definition verifyReceipt :: "crypto \<Rightarrow> token \<Rightarrow> verify_options \<Rightarrow> int \<Rightarrow> int \<Rightarrow> verify_result" where
  "verifyReceipt cr tok options libNowMs nowMs =
     (let decoded =
            (case truthy (jwtSecret options) of
               Some secret \<Rightarrow> jwtVerify cr tok (Secret secret) (libNowMs div 1000)
             | None \<Rightarrow>
                 (case truthy (facilitatorPublicKey options) of
                    Some pem \<Rightarrow>
                      if importSPKI cr pem then jwtVerify cr tok (PublicKey pem) (libNowMs div 1000)
                      else Inl (JsError ''Invalid SPKI key'')
                  | None \<Rightarrow> decodeJwt tok))
      in case decoded of
           Inl err \<Rightarrow>
             \<lparr>valid = False, verified_receipt = None,
              verify_error = Some (''Receipt verification failed: '' @ error_message err)\<rparr>
         | Inr p \<Rightarrow>
             let r = receipt p; now = nowMs div 1000
             in if expiresAt r < now then
                  \<lparr>valid = False, verified_receipt = Some r,
                   verify_error = Some ''Receipt has expired''\<rparr>
                else
                  (case truthy (expectedContentId options) of
                     None \<Rightarrow> \<lparr>valid = True, verified_receipt = Some r, verify_error = None\<rparr>
                   | Some expected \<Rightarrow>
                       if contentId r \<noteq> expected then
                         \<lparr>valid = False, verified_receipt = Some r,
                          verify_error =
                            Some (''Receipt is for content '' @ CHR 0x22 # contentId r
                                  @ CHR 0x22 # '', not '' @ CHR 0x22 # expected @ [CHR 0x22])\<rparr>
                       else \<lparr>valid = True, verified_receipt = Some r, verify_error = None\<rparr>))"

subsection \<open>Receipt headers\<close>

text \<open>
  A Web API \<open>Headers\<close> object is the list of its (name, value) pairs; \<open>get\<close> matches names
  without regard to case and joins the values of a repeated name with a comma and a space.
  A plain record is a finite map from property names to values.
\<close>

definition lower_char :: "char \<Rightarrow> char" where
  "lower_char c =
     (case map_of (zip ''ABCDEFGHIJKLMNOPQRSTUVWXYZ'' ''abcdefghijklmnopqrstuvwxyz'') c of
        None \<Rightarrow> c
      | Some l \<Rightarrow> l)"

text \<open>\<open>toLowerCase\<close> on the ASCII letters; other code units are left as they are.\<close>

definition toLowerCase :: "string \<Rightarrow> string" where
  "toLowerCase s = map lower_char s"

fun join_values :: "string list \<Rightarrow> string" where
  "join_values [] = []"
| "join_values [v] = v"
| "join_values (v # vs) = v @ '', '' @ join_values vs"

definition Headers_get :: "(string \<times> string) list \<Rightarrow> string \<Rightarrow> string option" where
  "Headers_get hs name =
     (let vs = map snd (filter (\<lambda>(k, v). toLowerCase k = toLowerCase name) hs)
      in if vs = [] then None else Some (join_values vs))"

datatype headers = WebHeaders "(string \<times> string) list" | PlainRecord "(string \<times> string) list"

text \<open>\<open>a || b\<close> on optional texts.\<close>

definition or_else :: "string option \<Rightarrow> string option \<Rightarrow> string option" where
  "or_else a b = (case truthy a of Some s \<Rightarrow> Some s | None \<Rightarrow> b)"

definition auth_token :: "string option \<Rightarrow> string option" where
  "auth_token a =
     (case a of
        None \<Rightarrow> None
      | Some s \<Rightarrow> if startsWith s ''X402 '' then Some (drop 5 s) else None)"

definition extractReceiptFromHeaders :: "headers \<Rightarrow> string option" where
  "extractReceiptFromHeaders hdrs =
     (case hdrs of
        WebHeaders hs \<Rightarrow>
          (case truthy (Headers_get hs ''X-402-Receipt'') of
             Some r \<Rightarrow> Some r
           | None \<Rightarrow>
               (case truthy (Headers_get hs ''X-PAYMENT'') of
                  Some x \<Rightarrow> Some x
                | None \<Rightarrow> auth_token (Headers_get hs ''Authorization'')))
      | PlainRecord ps \<Rightarrow>
          (case truthy (or_else (map_of ps ''X-402-Receipt'') (map_of ps ''x-402-receipt'')) of
             Some r \<Rightarrow> Some r
           | None \<Rightarrow>
               (case truthy (or_else (map_of ps ''X-PAYMENT'') (map_of ps ''x-payment'')) of
                  Some x \<Rightarrow> Some x
                | None \<Rightarrow>
                    auth_token (or_else (map_of ps ''Authorization'') (map_of ps ''authorization'')))))"

section \<open>Facilitator: signature and time window\<close>

text \<open>\<open>resolveNetwork\<close>: the first registry entry whose CAIP-2 text is the given one.\<close>

definition resolveNetwork :: "string \<Rightarrow> (X402Network \<times> int) option" where
  "resolveNetwork net =
     find (\<lambda>(name, cid). net = ''eip155:'' @ BigInt_toString cid) NUMERIC_CHAIN_IDS"

record EIP712Domain =
  domain_name :: string
  domain_version :: string
  domain_chainId :: int
  verifyingContract :: string

record TransferMessage =
  msg_from :: string
  msg_to :: string
  msg_value :: int
  msg_validAfter :: int
  msg_validBefore :: int
  msg_nonce :: string

text \<open>
  \<open>recoverTypedDataAddress\<close> of the \<open>viem\<close> library (EIP-712 hashing and secp256k1
  recovery) is a parameter: from the domain, the message and the signature it gives the
  signer's address or raises.
\<close>

type_synonym recoverer = "EIP712Domain \<Rightarrow> TransferMessage \<Rightarrow> string \<Rightarrow> js_error + string"

definition buildDomain :: "int \<Rightarrow> X402Network \<Rightarrow> EIP712Domain" where
  "buildDomain cid net =
     \<lparr>domain_name = ''USD Coin'', domain_version = ''2'', domain_chainId = cid,
      verifyingContract = USDC_ADDRESSES net\<rparr>"

definition recoverSigner ::
  "recoverer \<Rightarrow> TransferAuthorization \<Rightarrow> string \<Rightarrow> int \<Rightarrow> X402Network \<Rightarrow> js_error + string" where
  "recoverSigner recover a sg cid net =
     (let dom = buildDomain cid net
      in case BigInt_of_string (auth_value a) of
           Inl err \<Rightarrow> Inl err
         | Inr v \<Rightarrow>
             recover dom
               \<lparr>msg_from = auth_from a, msg_to = auth_to a, msg_value = v,
                msg_validAfter = validAfter a, msg_validBefore = validBefore a,
                msg_nonce = nonce a\<rparr>
               sg)"

record signature_result =
  sig_valid :: bool
  recoveredAddress :: string
  sig_error :: "string option"

definition verifySignature ::
  "recoverer \<Rightarrow> TransferAuthorization \<Rightarrow> string \<Rightarrow> int \<Rightarrow> X402Network \<Rightarrow> signature_result" where
  "verifySignature recover a sg cid net =
     (case recoverSigner recover a sg cid net of
        Inl err \<Rightarrow>
          \<lparr>sig_valid = False,
           recoveredAddress = ''0x0000000000000000000000000000000000000000'',
           sig_error = Some (''Signature recovery failed: '' @ error_message err)\<rparr>
      | Inr recovered \<Rightarrow>
          let fromNormalized = toLowerCase (auth_from a);
              recoveredNormalized = toLowerCase recovered
          in if fromNormalized \<noteq> recoveredNormalized then
               \<lparr>sig_valid = False, recoveredAddress = recovered,
                sig_error = Some (''Signature mismatch: expected '' @ auth_from a
                                  @ '', recovered '' @ recovered)\<rparr>
             else \<lparr>sig_valid = True, recoveredAddress = recovered, sig_error = None\<rparr>)"

record window_result =
  window_valid :: bool
  window_error :: "string option"

text \<open>\<open>validateTimeWindow\<close>; \<open>nowMs\<close> is its reading of \<open>Date.now()\<close>.\<close>

definition validateTimeWindow :: "TransferAuthorization \<Rightarrow> int \<Rightarrow> window_result" where
  "validateTimeWindow a nowMs =
     (let now = nowMs div 1000
      in if validBefore a \<le> now then
           \<lparr>window_valid = False,
            window_error = Some (''Authorization expired: validBefore ''
                                 @ BigInt_toString (validBefore a) @ '' <= now '' @ BigInt_toString now)\<rparr>
         else if validAfter a > now then
           \<lparr>window_valid = False,
            window_error = Some (''Authorization not yet valid: validAfter ''
                                 @ BigInt_toString (validAfter a) @ '' > now '' @ BigInt_toString now)\<rparr>
         else \<lparr>window_valid = True, window_error = None\<rparr>)"

section \<open>Facilitator: request handler\<close>

record FacilitatorConfig =
  port :: number
  config_jwtSecret :: string
  config_feePercent :: number
  facilitatorUrl :: string
  mockTransfers :: bool
  facilitatorPrivateKey :: "string option"
  rpcUrl :: "string option"

text \<open>The environment variables \<open>loadConfig\<close> reads from \<open>process.env\<close>.\<close>

record process_env =
  PORT :: "string option"
  JWT_SECRET :: "string option"
  FEE_PERCENT :: "string option"
  FACILITATOR_URL :: "string option"
  MOCK_TRANSFERS :: "string option"
  FACILITATOR_PRIVATE_KEY :: "string option"
  RPC_URL :: "string option"

text \<open>\<open>x || d\<close> for a variable \<open>x\<close> and a default text \<open>d\<close>.\<close>

definition env_or :: "string option \<Rightarrow> string \<Rightarrow> string" where
  "env_or x d = (case truthy x of None \<Rightarrow> d | Some s \<Rightarrow> s)"

text \<open>
  \<open>loadConfig\<close>. The fee percent is refused when \<open>feePercent < 0 || feePercent > 50\<close>; both
  comparisons are false of \<open>NaN\<close>.
\<close>

definition loadConfig :: "process_env \<Rightarrow> js_error + FacilitatorConfig" where
  "loadConfig pe =
     (let port' = parseInt10 (env_or (PORT pe) ''4020'');
          jwtSecret' = env_or (JWT_SECRET pe) [];
          feePercent' = parseFloat (env_or (FEE_PERCENT pe) ''2'')
      in case (case truthy (FACILITATOR_URL pe) of
                 Some u \<Rightarrow> Inr u
               | None \<Rightarrow> (case Number_toString port' of
                            Inl err \<Rightarrow> Inl err
                          | Inr shown \<Rightarrow> Inr (''http://localhost:'' @ shown))) of
           Inl err \<Rightarrow> Inl err
         | Inr facilitatorUrl' \<Rightarrow>
             let mockTransfers' = (MOCK_TRANSFERS pe \<noteq> Some ''false'');
                 facilitatorPrivateKey' = FACILITATOR_PRIVATE_KEY pe
             in if jwtSecret' = [] then
                  Inl (JsError ''JWT_SECRET environment variable is required'')
                else if is_neg feePercent' \<or> js_less (number_of_int 50) feePercent' then
                  Inl (JsError ''FEE_PERCENT must be between 0 and 50'')
                else if \<not> mockTransfers' \<and> truthy facilitatorPrivateKey' = None then
                  Inl (JsError ''FACILITATOR_PRIVATE_KEY is required when MOCK_TRANSFERS=false'')
                else
                  Inr \<lparr>port = port', config_jwtSecret = jwtSecret', config_feePercent = feePercent',
                       facilitatorUrl = facilitatorUrl', mockTransfers = mockTransfers',
                       facilitatorPrivateKey = facilitatorPrivateKey', rpcUrl = RPC_URL pe\<rparr>)"

record TransferResult =
  result_txHash :: string
  success :: bool

text \<open>A \<open>TransferExecutor\<close>: its \<open>execute\<close> on the authorization, the signature and the chain
  id, returning a result or raising.\<close>

type_synonym executor = "TransferAuthorization \<Rightarrow> string \<Rightarrow> int \<Rightarrow> js_error + TransferResult"

text \<open>The built-in mock executor.\<close>

definition MockTransferExecutor :: executor where
  "MockTransferExecutor a sg cid =
     (let n = drop 2 (nonce a)
      in Inr \<lparr>result_txHash = ''0x'' @ concat (replicate 12 ''00'') @ take 40 n, success = True\<rparr>)"

datatype 'a validation = Invalid string | Valid 'a

text \<open>
  \<open>validatePayload\<close> on a body read at the type \<open>FacilitatorPayload\<close>: the checks that a value
  of that type can fail, in the order of the source.
\<close>

definition validatePayload :: "FacilitatorPayload \<Rightarrow> FacilitatorPayload validation" where
  "validatePayload body =
     (let auth = authorization (payload body)
      in if x402Version body \<noteq> 1 then
           Invalid (''Unsupported x402Version: '' @ BigInt_toString (x402Version body) @ ''. Expected 1'')
         else if scheme body \<noteq> ''exact'' then
           Invalid (''Unsupported scheme: '' @ scheme body @ ''. Expected '' @ CHR 0x22 # ''exact'' @ [CHR 0x22])
         else if \<not> startsWith (signature (payload body)) ''0x'' then
           Invalid ''Missing or invalid payload.signature''
         else if \<not> startsWith (auth_from auth) ''0x'' then Invalid ''Invalid authorization.from address''
         else if \<not> startsWith (auth_to auth) ''0x'' then Invalid ''Invalid authorization.to address''
         else if \<not> startsWith (nonce auth) ''0x'' then Invalid ''Invalid authorization.nonce''
         else Valid body)"

datatype response_body = ErrorBody string | ReceiptBody token string

record HandlerResult =
  status :: int
  body :: response_body

text \<open>
  What a run of \<open>handlePayment\<close> reads from outside: the signer recovery, the HMAC of the
  token library, the readings of \<open>Date.now()\<close> in the time-window check, in \<open>buildReceipt\<close>
  and in \<open>generateReceiptId\<close>, and the random part of the receipt id.
\<close>

record handler_env =
  env_recover :: recoverer
  env_crypto :: crypto
  now_window :: int
  now_receipt :: int
  now_id :: int
  random36 :: string

text \<open>\<open>handlePayment\<close>; a left result is a rejected promise.\<close>

definition handlePayment ::
  "handler_env \<Rightarrow> FacilitatorPayload \<Rightarrow> FacilitatorConfig \<Rightarrow> executor \<Rightarrow> js_error + HandlerResult" where
  "handlePayment env pl config exec =
     (case validatePayload pl of
        Invalid msg \<Rightarrow> Inr \<lparr>status = 400, body = ErrorBody msg\<rparr>
      | Valid request \<Rightarrow>
          (case resolveNetwork (network request) of
             None \<Rightarrow> Inr \<lparr>status = 400, body = ErrorBody (''Unsupported network: '' @ network request)\<rparr>
           | Some (x402Network, cid) \<Rightarrow>
               let auth = authorization (payload request);
                   sg = signature (payload request);
                   sigResult = verifySignature (env_recover env) auth sg cid x402Network
               in if \<not> sig_valid sigResult then
                    Inr \<lparr>status = 400,
                         body = ErrorBody (case sig_error sigResult of None \<Rightarrow> [] | Some m \<Rightarrow> m)\<rparr>
                  else
                    let timeResult = validateTimeWindow auth (now_window env)
                    in if \<not> window_valid timeResult then
                         Inr \<lparr>status = 400,
                              body = ErrorBody (case window_error timeResult of None \<Rightarrow> [] | Some m \<Rightarrow> m)\<rparr>
                       else
                         (case calculateFee (auth_value auth) (config_feePercent config) of
                            Inl err \<Rightarrow> Inl err
                          | Inr fees \<Rightarrow>
                              (case exec auth sg cid of
                                 Inl err \<Rightarrow>
                                   Inr \<lparr>status = 500,
                                        body = ErrorBody (''Transfer failed: '' @ error_message err)\<rparr>
                               | Inr transferResult \<Rightarrow>
                                   if \<not> success transferResult then
                                     Inr \<lparr>status = 500, body = ErrorBody ''Transfer execution failed''\<rparr>
                                   else
                                     let tx = result_txHash transferResult;
                                         rcpt = buildReceipt
                                           \<lparr>p_contentId = resource request,
                                            p_payer = auth_from auth,
                                            p_payee = auth_to auth,
                                            p_amount = publisherAmount fees,
                                            p_currency = Some ''USDC'',
                                            p_txHash = tx,
                                            p_chainId = cid,
                                            p_facilitator = Some (facilitatorUrl config),
                                            p_ttlSeconds = None\<rparr>
                                           (now_receipt env) (now_id env) (random36 env)
                                     in case createReceiptToken (env_crypto env) rcpt
                                               (config_jwtSecret config) of
                                          Inl err \<Rightarrow> Inl err
                                        | Inr receiptToken \<Rightarrow>
                                            Inr \<lparr>status = 200,
                                                 body = ReceiptBody receiptToken tx\<rparr>))))"

section \<open>Agent: receipt cache\<close>

text \<open>
  The \<open>Map\<close> of the cache is a finite map from content ids to entries; times are
  milliseconds since the epoch, as \<open>Date.now()\<close> gives them.
\<close>

record 't CacheEntry =
  entry_token :: 't
  entry_expiresAt :: int

record 't ReceiptCache =
  cache :: "string \<rightharpoonup> 't CacheEntry"
  defaultTTL :: int
  accessCount :: int

definition cleanupInterval :: int where
  "cleanupInterval = 100"

definition new_ReceiptCache :: "int \<Rightarrow> 't ReceiptCache" where
  "new_ReceiptCache ttl = \<lparr>cache = Map.empty, defaultTTL = ttl, accessCount = 0\<rparr>"

text \<open>\<open>cleanup\<close>: every entry whose expiry lies before \<open>now\<close> is deleted.\<close>

definition cache_cleanup :: "'t ReceiptCache \<Rightarrow> int \<Rightarrow> 't ReceiptCache" where
  "cache_cleanup c now =
     c\<lparr>cache := (\<lambda>k. case cache c k of
                        None \<Rightarrow> None
                      | Some entry \<Rightarrow> if now > entry_expiresAt entry then None else Some entry)\<rparr>"

text \<open>
  \<open>get\<close>: the result and the cache afterwards; \<open>sweepNow\<close> is the clock as the periodic
  cleanup reads it and \<open>now\<close> the reading of the expiry check.
\<close>

definition cache_get :: "'t ReceiptCache \<Rightarrow> string \<Rightarrow> int \<Rightarrow> int \<Rightarrow> 't option \<times> 't ReceiptCache" where
  "cache_get c cid sweepNow now =
     (let c1 = c\<lparr>accessCount := accessCount c + 1\<rparr>;
          c2 = (if accessCount c1 mod cleanupInterval = 0 then cache_cleanup c1 sweepNow else c1)
      in case cache c2 cid of
           None \<Rightarrow> (None, c2)
         | Some entry \<Rightarrow>
             if now > entry_expiresAt entry
             then (None, c2\<lparr>cache := (cache c2)(cid := None)\<rparr>)
             else (Some (entry_token entry), c2))"

text \<open>\<open>set\<close>, with the optional TTL in seconds.\<close>

definition cache_set :: "'t ReceiptCache \<Rightarrow> string \<Rightarrow> 't \<Rightarrow> int option \<Rightarrow> int \<Rightarrow> 't ReceiptCache" where
  "cache_set c cid tok ttl now =
     (let effectiveTTL = (case ttl of None \<Rightarrow> defaultTTL c | Some t \<Rightarrow> t)
      in c\<lparr>cache := (cache c)(cid \<mapsto>
                        \<lparr>entry_token = tok, entry_expiresAt = now + effectiveTTL * 1000\<rparr>)\<rparr>)"

definition cache_delete :: "'t ReceiptCache \<Rightarrow> string \<Rightarrow> 't ReceiptCache" where
  "cache_delete c cid = c\<lparr>cache := (cache c)(cid := None)\<rparr>"

section \<open>Agent: budget manager\<close>

record SpendingPolicy =
  maxPerRequest :: "string option"
  maxTotal :: "string option"
  allowedDomains :: "string list option"

record PaymentRecord =
  record_contentId :: string
  record_amount :: string
  record_domain :: string
  record_timestamp :: int

text \<open>
  The manager's state. \<open>has_onBudgetWarning\<close> says whether the warning callback is set; a
  call of the callback is returned by \<open>recordSpend\<close> as the text it was given.
\<close>

record BudgetManager =
  policy :: SpendingPolicy
  totalSpent :: int
  history :: "PaymentRecord list"
  has_onBudgetWarning :: bool

definition new_BudgetManager :: "SpendingPolicy \<Rightarrow> BudgetManager" where
  "new_BudgetManager pol = \<lparr>policy = pol, totalSpent = 0, history = [], has_onBudgetWarning = False\<rparr>"

record SpendCheckResult =
  allowed :: bool
  reason :: "string option"

text \<open>\<open>BigInt(parsePrice(x))\<close>.\<close>

definition price_units :: "string \<Rightarrow> js_error + int" where
  "price_units x = (case parsePrice x of Inl err \<Rightarrow> Inl err | Inr s \<Rightarrow> BigInt_of_string s)"

definition plain_format :: format_options where
  "plain_format = \<lparr>symbol = Some False, decimals = None\<rparr>"

text \<open>The three checks of \<open>checkSpend\<close>, each handing over to the next.\<close>

definition check_total :: "BudgetManager \<Rightarrow> int \<Rightarrow> js_error + SpendCheckResult" where
  "check_total bm amountSmallest =
     (case truthy (maxTotal (policy bm)) of
        None \<Rightarrow> Inr \<lparr>allowed = True, reason = None\<rparr>
      | Some mt \<Rightarrow>
          (case price_units mt of
             Inl err \<Rightarrow> Inl err
           | Inr maxTotal' \<Rightarrow>
               let projectedTotal = totalSpent bm + amountSmallest
               in if projectedTotal > maxTotal' then
                    (let remaining = maxTotal' - totalSpent bm
                     in case formatPrice (BigInt_toString remaining) plain_format of
                          Inl err \<Rightarrow> Inl err
                        | Inr shown \<Rightarrow>
                            Inr \<lparr>allowed = False,
                                 reason = Some (''Would exceed total budget. Remaining: '' @ shown @ '' USDC'')\<rparr>)
                  else Inr \<lparr>allowed = True, reason = None\<rparr>))"

definition check_per_request :: "BudgetManager \<Rightarrow> string \<Rightarrow> int \<Rightarrow> js_error + SpendCheckResult" where
  "check_per_request bm amt amountSmallest =
     (case truthy (maxPerRequest (policy bm)) of
        None \<Rightarrow> check_total bm amountSmallest
      | Some mpr \<Rightarrow>
          (case price_units mpr of
             Inl err \<Rightarrow> Inl err
           | Inr maxPerRequest' \<Rightarrow>
               if amountSmallest > maxPerRequest' then
                 Inr \<lparr>allowed = False,
                      reason = Some (''Amount '' @ amt @ '' USDC exceeds per-request limit of ''
                                     @ mpr @ '' USDC'')\<rparr>
               else check_total bm amountSmallest))"

text \<open>The domain the allow-list check of \<open>checkSpend\<close> refuses, if it refuses one.\<close>

definition domain_refused :: "SpendingPolicy \<Rightarrow> string option \<Rightarrow> string option" where
  "domain_refused pol dmn =
     (case truthy dmn of
        None \<Rightarrow> None
      | Some d \<Rightarrow>
          (case allowedDomains pol of
             None \<Rightarrow> None
           | Some ds \<Rightarrow> if length ds > 0 \<and> d \<notin> set ds then Some d else None))"

definition checkSpend :: "BudgetManager \<Rightarrow> string \<Rightarrow> string option \<Rightarrow> js_error + SpendCheckResult" where
  "checkSpend bm amt dmn =
     (case domain_refused (policy bm) dmn of
        Some d \<Rightarrow>
          Inr \<lparr>allowed = False,
               reason = Some (''Domain '' @ CHR 0x22 # d @ CHR 0x22 # '' is not in the allowed list'')\<rparr>
      | None \<Rightarrow>
          (case price_units amt of
             Inl err \<Rightarrow> Inl err
           | Inr amountSmallest \<Rightarrow> check_per_request bm amt amountSmallest))"

text \<open>\<open>assertSpend\<close>: the exception it raises, or \<open>None\<close> when it returns.\<close>

definition assertSpend :: "BudgetManager \<Rightarrow> string \<Rightarrow> string option \<Rightarrow> js_error option" where
  "assertSpend bm amt dmn =
     (case checkSpend bm amt dmn of
        Inl err \<Rightarrow> Some err
      | Inr check \<Rightarrow>
          if allowed check then None
          else
            let msg = (case reason check of None \<Rightarrow> [] | Some m \<Rightarrow> m);
                domain_case = (case truthy dmn of
                                 None \<Rightarrow> False
                               | Some d \<Rightarrow> (case allowedDomains (policy bm) of
                                             None \<Rightarrow> False
                                           | Some ds \<Rightarrow> d \<notin> set ds))
            in if domain_case then Some (X402BudgetError msg DOMAIN_NOT_ALLOWED)
               else
                 (case truthy (maxPerRequest (policy bm)) of
                    None \<Rightarrow> Some (X402BudgetError msg BUDGET_EXCEEDED)
                  | Some mpr \<Rightarrow>
                      (case price_units mpr of
                         Inl err \<Rightarrow> Some err
                       | Inr maxPerRequest' \<Rightarrow>
                           (case price_units amt of
                              Inl err \<Rightarrow> Some err
                            | Inr amountSmallest \<Rightarrow>
                                if amountSmallest > maxPerRequest'
                                then Some (X402BudgetError msg PER_REQUEST_LIMIT)
                                else Some (X402BudgetError msg BUDGET_EXCEEDED)))))"

text \<open>
  \<open>recordSpend\<close>: the exception it raises (if any), the warnings it delivers, and the manager
  afterwards. The total and the history are written before the warning is worked out.
\<close>

definition recordSpend ::
  "BudgetManager \<Rightarrow> string \<Rightarrow> string \<Rightarrow> string \<Rightarrow> int \<Rightarrow> js_error option \<times> string list \<times> BudgetManager" where
  "recordSpend bm amountSmallest cid dmn now =
     (case BigInt_of_string amountSmallest of
        Inl err \<Rightarrow> (Some err, [], bm)
      | Inr a \<Rightarrow>
          let bm' = bm\<lparr>totalSpent := totalSpent bm + a,
                        history := history bm @ [\<lparr>record_contentId = cid, record_amount = amountSmallest,
                                                  record_domain = dmn, record_timestamp = now\<rparr>]\<rparr>
          in case truthy (maxTotal (policy bm)) of
               None \<Rightarrow> (None, [], bm')
             | Some mt \<Rightarrow>
                 (case price_units mt of
                    Inl err \<Rightarrow> (Some err, [], bm')
                  | Inr maxTotal' \<Rightarrow>
                      let threshold = (maxTotal' * 80) sdiv 100
                      in if totalSpent bm' \<ge> threshold \<and> has_onBudgetWarning bm then
                           (let remaining = maxTotal' - totalSpent bm'
                            in case formatPrice (BigInt_toString remaining) plain_format of
                                 Inl err \<Rightarrow> (Some err, [], bm')
                               | Inr shown \<Rightarrow> (None, [shown], bm'))
                         else (None, [], bm')))"

definition getRemainingSmallest :: "BudgetManager \<Rightarrow> js_error + string option" where
  "getRemainingSmallest bm =
     (case truthy (maxTotal (policy bm)) of
        None \<Rightarrow> Inr None
      | Some mt \<Rightarrow>
          (case price_units mt of
             Inl err \<Rightarrow> Inl err
           | Inr maxTotal' \<Rightarrow> Inr (Some (BigInt_toString (maxTotal' - totalSpent bm)))))"

section \<open>Core: facilitator client\<close>

definition numeric_chain_id :: "X402Network \<Rightarrow> int" where
  "numeric_chain_id n = (case map_of NUMERIC_CHAIN_IDS n of None \<Rightarrow> 0 | Some i \<Rightarrow> i)"

definition buildUSDCDomain :: "X402Network \<Rightarrow> EIP712Domain" where
  "buildUSDCDomain net =
     \<lparr>domain_name = ''USD Coin'', domain_version = ''2'', domain_chainId = numeric_chain_id net,
      verifyingContract = USDC_ADDRESSES net\<rparr>"

text \<open>
  \<open>buildTransferAuthorization\<close> with its defaults (\<open>validAfter = 0\<close>, an hour of validity, a
  fresh nonce, which is an input): the typed data, whose message is the authorization, and
  the authorization itself.
\<close>

definition buildTransferAuthorization ::
  "string \<Rightarrow> string \<Rightarrow> string \<Rightarrow> X402Network \<Rightarrow> int \<Rightarrow> string
     \<Rightarrow> js_error + (EIP712Domain \<times> TransferAuthorization) \<times> TransferAuthorization" where
  "buildTransferAuthorization sender recipient prc net nowMs fresh =
     (case parsePrice prc of
        Inl err \<Rightarrow> Inl err
      | Inr amountInSmallestUnit \<Rightarrow>
          let a = \<lparr>auth_from = sender, auth_to = recipient, auth_value = amountInSmallestUnit,
                   validAfter = 0, validBefore = nowMs div 1000 + 3600, nonce = fresh\<rparr>
          in Inr ((buildUSDCDomain net, a), a))"

definition buildFacilitatorPayload ::
  "string \<Rightarrow> TransferAuthorization \<Rightarrow> X402Network \<Rightarrow> string \<Rightarrow> FacilitatorPayload" where
  "buildFacilitatorPayload sg a net cid =
     \<lparr>x402Version = 1, scheme = ''exact'',
      network = ''eip155:'' @ BigInt_toString (numeric_chain_id net),
      payload = \<lparr>signature = sg, authorization = a\<rparr>,
      resource = cid\<rparr>"

record FacilitatorResponse =
  response_receipt :: string
  response_txHash :: "string option"

text \<open>
  What one \<open>fetch\<close> of the facilitator gives: it fails, or it answers with \<open>ok\<close>, a status,
  a status text and a body that parses as JSON to the fields read here, or does not parse.
\<close>

record response_fields =
  field_receipt :: "string option"
  field_token :: "string option"
  field_txHash :: "string option"
  field_error :: "string option"
  field_message :: "string option"

datatype json_body = JsonFails js_error | JsonBody response_fields

datatype http_outcome = FetchFailed string | HttpResponse bool int string json_body

definition submitToFacilitator :: "string \<Rightarrow> http_outcome \<Rightarrow> js_error + FacilitatorResponse" where
  "submitToFacilitator url outcome =
     (case outcome of
        FetchFailed msg \<Rightarrow>
          Inl (X402NetworkError (''Failed to reach facilitator at '' @ url @ '': '' @ msg))
      | HttpResponse ok st stText js \<Rightarrow>
          if \<not> ok then
            (let errorMessage =
                   (case js of
                      JsonFails err \<Rightarrow> ''Facilitator error: '' @ BigInt_toString st @ '' '' @ stText
                    | JsonBody f \<Rightarrow>
                        (case or_else (field_error f) (field_message f) of
                           None \<Rightarrow> ''Facilitator error: '' @ BigInt_toString st
                         | Some m \<Rightarrow> if m = [] then ''Facilitator error: '' @ BigInt_toString st else m))
             in Inl (X402PaymentError errorMessage FACILITATOR_ERROR))
          else
            (case js of
               JsonFails err \<Rightarrow> Inl err
             | JsonBody f \<Rightarrow>
                 (case truthy (or_else (field_receipt f) (field_token f)) of
                    None \<Rightarrow> Inl (X402PaymentError ''No receipt returned from facilitator'' FACILITATOR_ERROR)
                  | Some receiptToken \<Rightarrow>
                      Inr \<lparr>response_receipt = receiptToken, response_txHash = field_txHash f\<rparr>)))"

definition retryable :: "js_error \<Rightarrow> bool" where
  "retryable err = (case err of X402PaymentError m c \<Rightarrow> c = FACILITATOR_ERROR | _ \<Rightarrow> True)"

text \<open>
  \<open>submitToFacilitatorWithRetry\<close>: \<open>responses k\<close> is what the \<open>k\<close>-th request gets; the loop
  runs for \<open>attempt = 0, ..., maxRetries\<close> (the sleeps between attempts change nothing here).
\<close>

function submit_loop ::
  "(nat \<Rightarrow> http_outcome) \<Rightarrow> string \<Rightarrow> int \<Rightarrow> nat \<Rightarrow> js_error option \<Rightarrow> js_error + FacilitatorResponse" where
  "submit_loop responses url retries attempt lastError =
     (if int attempt \<le> retries then
        (case submitToFacilitator url (responses attempt) of
           Inr r \<Rightarrow> Inr r
         | Inl err \<Rightarrow>
             if \<not> retryable err then Inl err
             else submit_loop responses url retries (Suc attempt) (Some err))
      else
        Inl (case lastError of
               None \<Rightarrow> X402PaymentError ''Facilitator request failed after retries'' FACILITATOR_ERROR
             | Some err \<Rightarrow> err))"
  by pat_completeness auto
termination
  by (relation "measure (\<lambda>(responses, url, retries, attempt, lastError). nat (retries + 1 - int attempt))") auto

declare submit_loop.simps [simp del]

record RetryConfig =
  maxRetries :: int
  backoffMs :: int

definition submitToFacilitatorWithRetry ::
  "(nat \<Rightarrow> http_outcome) \<Rightarrow> string \<Rightarrow> RetryConfig \<Rightarrow> js_error + FacilitatorResponse" where
  "submitToFacilitatorWithRetry responses url options = submit_loop responses url (maxRetries options) 0 None"

section \<open>Agent: client\<close>

datatype event_type = payment_started | payment_success | payment_failed | budget_warning

record PaymentEvent =
  event_type :: event_type
  event_contentId :: string
  event_amount :: "string option"
  event_error :: "js_error option"
  budgetRemaining :: "string option"
  event_timestamp :: int

record PaymentRequest =
  payTo :: string
  price :: string
  request_currency :: string
  request_contentId :: string
  request_network :: X402Network
  request_facilitatorUrl :: string

text \<open>
  The client: its wallet address, network, budget manager, receipt cache, facilitator URL
  and retry settings. \<open>emitted\<close> is the log of the events handed to listeners, oldest first;
  listeners are taken not to call back into the client.
\<close>

record X402AgentClient =
  wallet_address :: string
  client_network :: X402Network
  budget :: BudgetManager
  receiptCache :: "string ReceiptCache"
  client_facilitatorUrl :: string
  retryConfig :: RetryConfig
  emitted :: "PaymentEvent list"

text \<open>
  What a run of \<open>executePayment\<close> reads from outside: the host name of a URL (\<open>None\<close> when
  \<open>new URL\<close> raises), the wallet's signature of typed data, the facilitator's answers, the
  fresh nonce, and the readings of \<open>Date.now()\<close> in the order of the source.
\<close>

record pay_env =
  hostname_of :: "string \<Rightarrow> string option"
  signTypedData :: "EIP712Domain \<times> TransferAuthorization \<Rightarrow> js_error + string"
  responses :: "nat \<Rightarrow> http_outcome"
  fresh_nonce :: string
  t_started :: int
  t_build :: int
  t_cache :: int
  t_record :: int
  t_warning :: int
  t_success :: int
  t_failed :: int

definition extractDomain :: "pay_env \<Rightarrow> string \<Rightarrow> string" where
  "extractDomain env url = (case hostname_of env url of None \<Rightarrow> url | Some h \<Rightarrow> h)"

definition emit :: "X402AgentClient \<Rightarrow> PaymentEvent \<Rightarrow> X402AgentClient" where
  "emit c ev = c\<lparr>emitted := emitted c @ [ev]\<rparr>"

record payment_outcome =
  receiptToken :: string
  outcome_txHash :: "string option"

text \<open>The \<open>catch\<close> block of \<open>executePayment\<close>: emit \<open>payment_failed\<close> and raise again.\<close>

definition payment_fails ::
  "pay_env \<Rightarrow> PaymentRequest \<Rightarrow> js_error \<Rightarrow> X402AgentClient \<Rightarrow> (js_error + payment_outcome) \<times> X402AgentClient" where
  "payment_fails env req err c =
     (Inl err,
      emit c \<lparr>event_type = payment_failed, event_contentId = request_contentId req,
              event_amount = Some (price req), event_error = Some err, budgetRemaining = None,
              event_timestamp = t_failed env\<rparr>)"

text \<open>The steps of \<open>executePayment\<close> after the facilitator has returned \<open>result\<close>.\<close>

definition settle_payment ::
  "pay_env \<Rightarrow> PaymentRequest \<Rightarrow> string \<Rightarrow> FacilitatorResponse \<Rightarrow> X402AgentClient
     \<Rightarrow> (js_error + payment_outcome) \<times> X402AgentClient" where
  "settle_payment env req dmn result c1 =
     (let cid = request_contentId req;
          c2 = c1\<lparr>receiptCache := cache_set (receiptCache c1) cid (response_receipt result) None (t_cache env)\<rparr>
      in case parsePrice (price req) of
           Inl err \<Rightarrow> payment_fails env req err c2
         | Inr amountSmallest \<Rightarrow>
             (case recordSpend (budget c2) amountSmallest cid dmn (t_record env) of
                (thrown, warnings, bm) \<Rightarrow>
                  let c3 = c2\<lparr>budget := bm,
                              emitted := emitted c2 @
                                map (\<lambda>remaining. \<lparr>event_type = budget_warning, event_contentId = [],
                                                   event_amount = None, event_error = None,
                                                   budgetRemaining = Some remaining,
                                                   event_timestamp = t_warning env\<rparr>) warnings\<rparr>
                  in case thrown of
                       Some err \<Rightarrow> payment_fails env req err c3
                     | None \<Rightarrow>
                         (case getRemainingSmallest (budget c3) of
                            Inl err \<Rightarrow> payment_fails env req err c3
                          | Inr remaining \<Rightarrow>
                              (case (case truthy remaining of
                                       None \<Rightarrow> Inr None
                                     | Some r \<Rightarrow> (case formatPrice r plain_format of
                                                   Inl err \<Rightarrow> Inl err
                                                 | Inr shown \<Rightarrow> Inr (Some shown))) of
                                 Inl err \<Rightarrow> payment_fails env req err c3
                               | Inr shownRemaining \<Rightarrow>
                                   (Inr \<lparr>receiptToken = response_receipt result,
                                         outcome_txHash = response_txHash result\<rparr>,
                                    emit c3 \<lparr>event_type = payment_success, event_contentId = cid,
                                             event_amount = Some (price req), event_error = None,
                                             budgetRemaining = shownRemaining,
                                             event_timestamp = t_success env\<rparr>)))))"

text \<open>\<open>executePayment\<close>: what it returns or raises, and the client afterwards.\<close>

definition executePayment ::
  "pay_env \<Rightarrow> X402AgentClient \<Rightarrow> PaymentRequest \<Rightarrow> (js_error + payment_outcome) \<times> X402AgentClient" where
  "executePayment env c req =
     (let cid = request_contentId req;
          prc = price req;
          dmn = extractDomain env (request_facilitatorUrl req);
          c1 = emit c \<lparr>event_type = payment_started, event_contentId = cid, event_amount = Some prc,
                        event_error = None, budgetRemaining = None, event_timestamp = t_started env\<rparr>
      in case assertSpend (budget c1) prc (Some dmn) of
           Some err \<Rightarrow> payment_fails env req err c1
         | None \<Rightarrow>
             (case buildTransferAuthorization (wallet_address c1) (payTo req) prc (client_network c1)
                     (t_build env) (fresh_nonce env) of
                Inl err \<Rightarrow> payment_fails env req err c1
              | Inr (typedData, auth) \<Rightarrow>
                  (case signTypedData env typedData of
                     Inl err \<Rightarrow> payment_fails env req err c1
                   | Inr sg \<Rightarrow>
                       let pl = buildFacilitatorPayload sg auth (client_network c1) cid;
                           url = (case truthy (Some (request_facilitatorUrl req)) of
                                    None \<Rightarrow> client_facilitatorUrl c1
                                  | Some u \<Rightarrow> u)
                       in case submitToFacilitatorWithRetry (responses env) url (retryConfig c1) of
                            Inl err \<Rightarrow> payment_fails env req err c1
                          | Inr result \<Rightarrow> settle_payment env req dmn result c1)))"

section \<open>Core: the header order of the specification\<close>

text \<open>
  The order of inspection in the words of the specification, over a lookup of header names:
  \<open>X-402-Receipt\<close>, then \<open>X-PAYMENT\<close>, then \<open>Authorization\<close> when it starts with \<open>"X402 "\<close>.
\<close>

definition first_receipt :: "(string \<Rightarrow> string option) \<Rightarrow> string option" where
  "first_receipt look =
     (case truthy (look ''X-402-Receipt'') of
        Some r \<Rightarrow> Some r
      | None \<Rightarrow>
          (case truthy (look ''X-PAYMENT'') of
             Some x \<Rightarrow> Some x
           | None \<Rightarrow> auth_token (look ''Authorization'')))"

section \<open>Example values\<close>

text \<open>
  Stand-ins for the cryptographic primitives, used where a property is evaluated on an
  example: a message authentication code that is its key, and a signer recovery that
  returns the sender named in the message.
\<close>

definition example_crypto :: crypto where
  "example_crypto =
     \<lparr>hmac_sha256 = (\<lambda>k inp. k), es256_verify = (\<lambda>k inp sg. False), importSPKI = (\<lambda>k. True)\<rparr>"

definition example_recover :: recoverer where
  "example_recover d m sg = Inr (msg_from m)"

definition example_receipt :: X402Receipt where
  "example_receipt =
     \<lparr>receipt_id = ''rcpt_1'', contentId = ''a'', payer = ''0xA'', payee = ''0xB'',
      amount = ''98000'', currency = ''USDC'', txHash = ''0xT'', chainId = 8453,
      paidAt = 1000, expiresAt = 2000, facilitator = ''https://x402.org/facilitator''\<rparr>"


definition example_token :: token where
  "example_token =
     Compact \<lparr>alg = HS256, jwt_typ = ''JWT''\<rparr>
       \<lparr>receipt = example_receipt, jwt_sub = ''0xA'', jwt_iat = 1000, jwt_exp = 2000\<rparr> ''secret''"

definition example_config :: FacilitatorConfig where
  "example_config =
     \<lparr>port = Num 1005 2, config_jwtSecret = ''secret'', config_feePercent = Num 1 1,
      facilitatorUrl = ''http://localhost:4020'', mockTransfers = True,
      facilitatorPrivateKey = None, rpcUrl = None\<rparr>"






definition example_env :: handler_env where
  "example_env =
     \<lparr>env_recover = example_recover, env_crypto = example_crypto, now_window = 1700000000000,
      now_receipt = 1700000000500, now_id = 35, random36 = ''abcdefgh''\<rparr>"

definition expired_payload :: FacilitatorPayload where
  "expired_payload =
     \<lparr>x402Version = 1, scheme = ''exact'', network = ''eip155:8453'',
      payload = \<lparr>signature = ''0xS'',
                 authorization = \<lparr>auth_from = ''0xA'', auth_to = ''0xB'', auth_value = ''100000'',
                                  validAfter = 0, validBefore = 1700000000, nonce = ''0xab''\<rparr>\<rparr>,
      resource = ''article-1''\<rparr>"

definition open_list_manager :: BudgetManager where
  "open_list_manager =
     new_BudgetManager \<lparr>maxPerRequest = Some ''1.00'', maxTotal = None, allowedDomains = Some []\<rparr>"

definition example_client :: X402AgentClient where
  "example_client =
     \<lparr>wallet_address = ''0xA'', client_network = base_mainnet,
      budget = (new_BudgetManager
                  \<lparr>maxPerRequest = Some ''1.00'', maxTotal = Some ''1000.00'', allowedDomains = None\<rparr>)
                 \<lparr>has_onBudgetWarning := True\<rparr>,
      receiptCache = new_ReceiptCache 86400,
      client_facilitatorUrl = ''https://x402.org/facilitator'',
      retryConfig = \<lparr>maxRetries = 1, backoffMs = 1000\<rparr>,
      emitted = []\<rparr>"

definition example_request :: PaymentRequest where
  "example_request =
     \<lparr>payTo = ''0xB'', price = ''0.01'', request_currency = ''USDC'',
      request_contentId = ''article-1'', request_network = base_mainnet,
      request_facilitatorUrl = ''http://localhost:4020''\<rparr>"

definition unreachable_env :: pay_env where
  "unreachable_env =
     \<lparr>hostname_of = (\<lambda>url. Some ''localhost''),
      signTypedData = (\<lambda>typedData. Inr ''0xS''),
      responses = (\<lambda>k. FetchFailed ''connect ECONNREFUSED''),
      fresh_nonce = ''0xab'',
      t_started = 1700000000000, t_build = 1700000000001, t_cache = 1700000000002,
      t_record = 1700000000003, t_warning = 1700000000004, t_success = 1700000000005,
      t_failed = 1700000000006\<rparr>"

section \<open>Properties of the JavaScript primitives\<close>

subsection \<open>Rounding to a double\<close>

lemma nbits_lt: "n < 2 ^ nbits n"
proof (induction n rule: nbits.induct)
  case (1 n)
  show ?case
  proof (cases "n = 0")
    case True
    then show ?thesis by (simp add: nbits.simps)
  next
    case False
    with 1 have "n div 2 < 2 ^ nbits (n div 2)" by simp
    then have "n < 2 * 2 ^ nbits (n div 2)" by linarith
    with False show ?thesis by (simp add: nbits.simps [of n])
  qed
qed

lemma nbits_le: "n < 2 ^ j \<Longrightarrow> nbits n \<le> j"
proof (induction n arbitrary: j rule: nbits.induct)
  case (1 n)
  show ?case
  proof (cases "n = 0")
    case True
    then show ?thesis by (simp add: nbits.simps)
  next
    case False
    with 1(2) obtain i where j: "j = Suc i" by (cases j) auto
    with 1(2) have "n div 2 < 2 ^ i" by auto
    with 1(1) False have "nbits (n div 2) \<le> i" by blast
    with False j show ?thesis by (simp add: nbits.simps [of n])
  qed
qed

lemma canon_shape:
  "canon m e = Num m' e' \<Longrightarrow> (m = 0 \<and> m' = 0 \<and> e' = 0) \<or> (e \<le> e' \<and> m = m' * 2 ^ nat (e' - e))"
proof (induction m e rule: canon.induct)
  case (1 m e)
  show ?case
  proof (cases "m = 0")
    case True
    with 1(2) show ?thesis by (simp add: canon.simps [of 0 e])
  next
    case nz: False
    show ?thesis
    proof (cases "even m")
      case True
      with nz 1(2) have c: "canon (m div 2) (e + 1) = Num m' e'" by (simp add: canon.simps [of m e])
      from nz True have "m div 2 \<noteq> 0" by auto
      with 1(1) [OF nz True c] have le: "e + 1 \<le> e'" and eq: "m div 2 = m' * 2 ^ nat (e' - (e + 1))" by auto
      from le have "nat (e' - e) = Suc (nat (e' - (e + 1)))" by simp
      with eq True le show ?thesis by auto
    next
      case False
      with nz 1(2) show ?thesis by (simp add: canon.simps [of m e])
    qed
  qed
qed

lemma canon_is_Num: "\<exists>m' e'. canon m e = Num m' e'"
proof (induction m e rule: canon.induct)
  case (1 m e)
  show ?case
  proof (cases "m \<noteq> 0 \<and> even m")
    case True
    with 1 obtain m' e' where "canon (m div 2) (e + 1) = Num m' e'" by blast
    with True show ?thesis by (simp add: canon.simps [of m e])
  next
    case False
    then show ?thesis by (auto simp: canon.simps [of m e])
  qed
qed

lemma canon_int: "canon i 0 = Num m' e' \<Longrightarrow> 0 \<le> e' \<and> m' * 2 ^ nat e' = i"
  using canon_shape [of i 0 m' e'] by auto


lemma pow2_split: "e \<le> e' \<Longrightarrow> (2::rat) powi e' = 2 powi e * 2 ^ nat (e' - e)"
proof -
  assume le: "e \<le> e'"
  have "(2::rat) powi e' = 2 powi (e + (e' - e))" by simp
  also have "\<dots> = 2 powi e * 2 powi (e' - e)" by (rule power_int_add) simp
  also have "(2::rat) powi (e' - e) = 2 ^ nat (e' - e)" using le by (intro power_int_nonneg_exp) simp
  finally show ?thesis .
qed

lemma pow2_neg: "k \<le> 0 \<Longrightarrow> (2::rat) powi k = 1 / 2 ^ nat (- k)"
proof -
  assume "k \<le> 0"
  then have "(2::rat) powi (- k) = 2 ^ nat (- k)" by (intro power_int_nonneg_exp) simp
  then show ?thesis using power_int_minus_divide [of "2::rat" "- k"] by simp
qed

lemma canon_val: "val (canon m e) = of_int m * 2 powi e"
proof -
  obtain m' e' where c: "canon m e = Num m' e'" using canon_is_Num by blast
  from canon_shape [OF c] show ?thesis
  proof
    assume "m = 0 \<and> m' = 0 \<and> e' = 0"
    with c show ?thesis by simp
  next
    assume h: "e \<le> e' \<and> m = m' * 2 ^ nat (e' - e)"
    then have "(2::rat) powi e' = 2 powi e * 2 ^ nat (e' - e)" by (simp add: pow2_split)
    with h c show ?thesis by simp
  qed
qed

lemma rne_div_bounds:
  assumes "0 \<le> n" "0 < d" "n \<le> N * d"
  shows "0 \<le> rne_div n d \<and> rne_div n d \<le> N"
proof -
  have f0: "0 \<le> n div d" using assms by (simp add: pos_imp_zdiv_nonneg_iff)
  have fN: "n div d \<le> N" using assms zdiv_mono1 [of n "N * d" d] by simp
  show ?thesis
  proof (cases "n div d = N")
    case True
    then have "n mod d = 0" using assms
      by (smt (verit, best) mult.commute mult_div_mod_eq pos_mod_sign)
    with True assms f0 show ?thesis by (simp add: rne_div_def Let_def)
  next
    case False
    with fN f0 show ?thesis by (auto simp: rne_div_def Let_def)
  qed
qed

lemma fl_ratio_range:
  assumes p: "0 \<le> p" and q: "0 < q" and le: "p \<le> N * q" and N: "N < 2 ^ 53"
  shows "\<exists>m e. fl_ratio p q = Num m e \<and> 0 \<le> val (Num m e) \<and> val (Num m e) \<le> of_int N"
proof (cases "p = 0")
  case True
  have "0 \<le> N"
  proof (rule ccontr)
    assume "\<not> 0 \<le> N"
    with q have "N * q < 0" by (simp add: mult_neg_pos)
    with p le show False by simp
  qed
  with True show ?thesis by (simp add: fl_ratio_def)
next
  case False
  define e0 where "e0 = int (nbits (nat p)) - int (nbits (nat q))"
  define e where "e = (if (if 0 \<le> e0 then q * 2 ^ nat e0 \<le> p else q \<le> p * 2 ^ nat (- e0))
                        then e0 else e0 - 1)"
  define k where "k = max (e - 52) (- 1074)"
  define j where "j = nat (- k)"
  define m where "m = (if 0 \<le> k then rne_div p (q * 2 ^ nat k) else rne_div (p * 2 ^ nat (- k)) q)"
  have np: "\<not> p < 0" "\<bar>p\<bar> = p" using p by auto
  have unfold: "fl_ratio p q = (if 1024 < int (nbits (nat m)) + k then PosInf else canon m k)"
    by (simp only: fl_ratio_def Let_def e0_def e_def k_def m_def np False if_False)
  have Nq: "N * q < 2 ^ 53 * q" using N q by simp
  have "q < 2 ^ nbits (nat q)" using nbits_lt [of "nat q"] q
    by (metis nat_less_iff of_nat_numeral of_nat_power order_less_imp_le)
  then have "2 ^ 53 * q < 2 ^ 53 * (2 ^ nbits (nat q) :: int)" by simp 
  with Nq le have "p < 2 ^ (53 + nbits (nat q))" by (simp add: power_add)
  then have "nat p < 2 ^ (53 + nbits (nat q))" using p
    by (metis nat_less_iff of_nat_numeral of_nat_power)
  then have "nbits (nat p) \<le> 53 + nbits (nat q)" by (rule nbits_le)
  then have e0: "e0 \<le> 53" by (simp add: e0_def)
  have e52: "e \<le> 52"
  proof (cases "e0 = 53")
    case True
    have "\<not> q * 2 ^ 53 \<le> p" using Nq le by (simp add: mult.commute)
    with True show ?thesis by (simp add: e_def)
  next
    case False
    with e0 show ?thesis by (simp add: e_def)
  qed
  then have k0: "k \<le> 0" by (simp add: k_def)
  then have kj: "k = - int j" by (simp add: j_def)
  have m_eq: "m = rne_div (p * 2 ^ j) q"
  proof (cases "k = 0")
    case True
    then show ?thesis by (simp add: m_def j_def)
  next
    case False
    with k0 show ?thesis by (simp add: m_def j_def)
  qed
  have "p * 2 ^ j \<le> N * 2 ^ j * q" using le by (simp add: mult.assoc mult.left_commute mult.commute)
  with p q have mb: "0 \<le> m \<and> m \<le> N * 2 ^ j"
    unfolding m_eq by (intro rne_div_bounds) simp_all
  then have "m < 2 ^ (53 + j)" using N
    by (smt (verit) mult_less_cancel_right power_add zero_less_numeral zero_less_power)
  then have "nat m < 2 ^ (53 + j)" using mb
    by (metis nat_less_iff of_nat_numeral of_nat_power)
  then have "nbits (nat m) \<le> 53 + j" by (rule nbits_le)
  with kj have "\<not> 1024 < int (nbits (nat m)) + k" by simp
  with unfold have fl: "fl_ratio p q = canon m k" by simp
  obtain m' e' where c: "canon m k = Num m' e'" using canon_is_Num by blast
  have v: "val (Num m' e') = of_int m / 2 ^ j"
    using canon_val [of m k] c k0 by (simp add: pow2_neg j_def)
  have "of_int m \<le> (of_int N :: rat) * 2 ^ j"
    using mb by (metis of_int_le_iff of_int_mult of_int_numeral of_int_power)
  then have "of_int m / 2 ^ j \<le> (of_int N :: rat)" by (simp add: divide_le_eq)
  moreover have "0 \<le> (of_int m :: rat) / 2 ^ j" using mb by simp
  ultimately show ?thesis using fl c v by simp
qed

lemma nbits_eval:
  "nbits 0 = 0" "nbits 1 = 1" "nbits (Suc 0) = 1" "nbits (numeral k) = Suc (nbits (numeral k div 2))"
  by (simp_all add: nbits.simps)

lemma canon_eval:
  "canon 0 e = Num 0 0"
  "canon 1 e = Num 1 e"
  "canon (- 1) e = Num (- 1) e"
  "canon (numeral k) e = (if even (numeral k :: int) then canon (numeral k div 2) (e + 1) else Num (numeral k) e)"
  "canon (- numeral k) e = (if even (numeral k :: int) then canon (- numeral k div 2) (e + 1) else Num (- numeral k) e)"
  by (simp_all add: canon.simps)

lemmas fl_ratio_eval =
  fl_ratio_def [of 0] fl_ratio_def [of 1] fl_ratio_def [of "- 1"]
  fl_ratio_def [of "numeral p" for p] fl_ratio_def [of "- numeral p" for p]

lemmas rne_div_eval =
  rne_div_def [of 0] rne_div_def [of 1] rne_div_def [of "numeral p" for p]

lemmas num_eval = fl_ratio_eval rne_div_eval nbits_eval canon_eval number_of_int_def Let_def

lemma number_100: "number_of_int 100 = Num 25 2"
  by (simp add: num_eval cong: let_weak_cong)

lemma val_pos: "0 \<le> val (Num m e) \<longleftrightarrow> 0 \<le> m"
proof -
  have "(0::rat) < 2 powi e" by simp
  then show ?thesis unfolding val.simps
    by (metis linorder_not_less of_int_0_le_iff zero_le_mult_iff zero_le_numeral zero_le_power_int)
qed

lemma js_mul_100_range:
  assumes lo: "0 \<le> val (Num m e)" and hi: "val (Num m e) \<le> 50"
  shows "\<exists>m' e'. js_mul (Num m e) (number_of_int 100) = Num m' e'
           \<and> 0 \<le> val (Num m' e') \<and> val (Num m' e') \<le> 5000"
proof -
  have m0: "0 \<le> m" using lo by (simp only: val_pos)
  show ?thesis
  proof (cases "0 \<le> e + 2")
    case True
    have "(2::rat) powi (e + 2) = 2 powi e * 4"
      using power_int_add [of "2::rat" e 2] by simp
    moreover have "(2::rat) powi (e + 2) = 2 ^ nat (e + 2)" using True by (intro power_int_nonneg_exp)
    ultimately have "(of_int (m * 25 * 2 ^ nat (e + 2)) :: rat) = 100 * (of_int m * 2 powi e)" by simp
    also have "\<dots> \<le> 100 * 50" using hi by simp
    finally have "(of_int (m * 25 * 2 ^ nat (e + 2)) :: rat) \<le> of_int (5000 * 1)" by simp
    then have le: "m * 25 * 2 ^ nat (e + 2) \<le> 5000 * 1" by (simp only: of_int_le_iff)
    have "0 \<le> m * 25 * 2 ^ nat (e + 2)" using m0 by simp
    from fl_ratio_range [OF this _ le] have
      "\<exists>m' e'. fl_ratio (m * 25 * 2 ^ nat (e + 2)) 1 = Num m' e' \<and> 0 \<le> val (Num m' e') \<and> val (Num m' e') \<le> of_int 5000"
      by simp
    with True show ?thesis by (simp add: number_100 Let_def)
  next
    case False
    define j where "j = nat (- (e + 2))"
    have "nat (- e) = j + 2" using False by (simp add: j_def)
    moreover have "(2::rat) powi e = 1 / 2 ^ nat (- e)" using False by (intro pow2_neg) simp
    ultimately have pe: "(2::rat) powi e = 1 / (2 ^ j * 4)" by (simp add: power_add)
    have "of_int m / (2 ^ j * 4) \<le> (50::rat)" using hi by (simp add: pe)
    then have "of_int m \<le> (50::rat) * (2 ^ j * 4)" by (simp add: divide_le_eq)
    then have "(of_int (m * 25) :: rat) \<le> of_int (5000 * 2 ^ j)" by simp
    then have le: "m * 25 \<le> 5000 * 2 ^ j" by (simp only: of_int_le_iff)
    have "0 \<le> m * 25" using m0 by simp
    from fl_ratio_range [OF this _ le] have
      "\<exists>m' e'. fl_ratio (m * 25) (2 ^ j) = Num m' e' \<and> 0 \<le> val (Num m' e') \<and> val (Num m' e') \<le> of_int 5000"
      by simp
    with False show ?thesis by (simp add: number_100 Let_def j_def)
  qed
qed


lemma div_lt_upper: "0 < b \<Longrightarrow> a < c * b \<Longrightarrow> a div b < (c::int)"
proof -
  assume b: "0 < b" and lt: "a < c * b"
  have "b * (a div b) + a mod b = a" by simp
  moreover have "0 \<le> a mod b" using b by simp
  ultimately have "b * (a div b) \<le> a" by linarith
  with lt have "b * (a div b) < b * c" by (simp add: mult.commute)
  then show ?thesis using b by (simp add: mult_less_cancel_left_pos)
qed

lemma round_range:
  assumes lo: "0 \<le> val (Num m e)" and hi: "val (Num m e) \<le> of_int N"
  shows "\<exists>b. BigInt_of_number (Math_round (Num m e)) = Inr b \<and> 0 \<le> b \<and> b \<le> N"
proof -
  have m0: "0 \<le> m" using lo by (simp only: val_pos)
  show ?thesis
  proof (cases "0 \<le> e")
    case True
    then have "val (Num m e) = of_int (m * 2 ^ nat e)" by (simp add: power_int_nonneg_exp)
    with hi have "m * 2 ^ nat e \<le> N" by (simp only: of_int_le_iff)
    with True m0 show ?thesis by (simp add: BigInt_of_number_def)
  next
    case False
    define j where "j = nat (- e)"
    define i where "i = (2 * m + 2 ^ j) div 2 ^ Suc j"
    have j1: "nat (1 - e) = Suc j" using False by (simp add: j_def)
    have mr: "Math_round (Num m e) = canon i 0" using False by (simp add: i_def j_def j1)
    obtain m' e' where c: "canon i 0 = Num m' e'" using canon_is_Num by blast
    from canon_int [OF c] have big: "BigInt_of_number (Math_round (Num m e)) = Inr i"
      unfolding mr c by (simp add: BigInt_of_number_def)
    have "(2::rat) powi e = 1 / 2 ^ j" using False unfolding j_def by (intro pow2_neg) simp
    with hi have "of_int m / 2 ^ j \<le> (of_int N :: rat)" by simp
    then have "(of_int m :: rat) \<le> of_int (N * 2 ^ j)" by (simp add: divide_le_eq)
    then have mN: "m \<le> N * 2 ^ j" by (simp only: of_int_le_iff)
    have i0: "0 \<le> i" using m0 by (simp add: i_def pos_imp_zdiv_nonneg_iff)
    have "(N + 1) * 2 ^ Suc j = 2 * (N * 2 ^ j) + 2 * 2 ^ j" by (simp add: algebra_simps)
    moreover have "(0::int) < 2 ^ j" by simp
    ultimately have "2 * m + 2 ^ j < (N + 1) * 2 ^ Suc j" using mN by linarith
    then have "i < N + 1" unfolding i_def by (intro div_lt_upper) simp_all
    with big i0 show ?thesis by simp
  qed
qed




lemma digit_char: "d < 10 \<Longrightarrow> is_digit (''0123456789'' ! d) \<and> digit_of (''0123456789'' ! d) = Some d"
proof -
  assume "d < 10"
  then have "d \<in> {0, 1, 2, 3, 4, 5, 6, 7, 8, 9}" by auto
  then show ?thesis by (auto simp: is_digit_def digit_of_def)
qed

lemma dec_digits: "dec n \<noteq> [] \<and> (\<forall>c\<in>set (dec n). is_digit c)"
proof (induction n rule: dec.induct)
  case (1 n)
  show ?case
  proof (cases "n < 10")
    case True
    then show ?thesis using digit_char [of n] by (simp add: dec.simps [of n])
  next
    case False
    with 1 digit_char [of "n mod 10"] show ?thesis by (simp add: dec.simps [of n])
  qed
qed

lemma parse_digits_append:
  "parse_digits b acc (xs @ ys) =
     (case parse_digits b acc xs of None \<Rightarrow> None | Some a \<Rightarrow> parse_digits b a ys)"
  by (induction xs arbitrary: acc) (auto split: option.splits)

lemma parse_digits_dec: "parse_digits 10 0 (dec n) = Some n"
proof (induction n rule: dec.induct)
  case (1 n)
  show ?case
  proof (cases "n < 10")
    case True
    then show ?thesis using digit_char [of n] by (simp add: dec.simps [of n])
  next
    case False
    with 1 digit_char [of "n mod 10"] show ?thesis
      by (simp add: dec.simps [of n] parse_digits_append)
  qed
qed

lemma digit_not_space: "is_digit c \<Longrightarrow> \<not> is_space c"
  by (auto simp: is_digit_def is_space_def)

lemma trim_digits: "\<forall>c\<in>set s. is_digit c \<Longrightarrow> trim s = s"
proof -
  assume d: "\<forall>c\<in>set s. is_digit c"
  have a: "dropWhile is_space s = s"
    using d by (cases s) (auto simp: digit_not_space)
  have "dropWhile is_space (rev s) = rev s"
    using d by (cases "rev s") (auto simp: digit_not_space dest!: arg_cong [where f = set])
  with a show ?thesis by (simp add: trim_def)
qed

lemma BigInt_of_string_dec: "BigInt_of_string (dec n) = Inr (int n)"
proof -
  have d: "dec n \<noteq> []" "\<forall>c\<in>set (dec n). is_digit c" using dec_digits by auto
  then obtain c cs where s: "dec n = c # cs" by (cases "dec n") auto
  have c: "is_digit c" using d s by simp
  have cs: "cs \<noteq> [] \<Longrightarrow> is_digit (hd cs)" using d s by (cases cs) auto
  have pre: "\<not> startsWith (dec n) [CHR ''0'', x]" if "\<not> is_digit x" for x
    using cs that unfolding s startsWith_def by (cases cs) auto
  have "\<not> is_digit CHR ''x''" "\<not> is_digit CHR ''X''" "\<not> is_digit CHR ''o''" "\<not> is_digit CHR ''O''"
    "\<not> is_digit CHR ''b''" "\<not> is_digit CHR ''B''" "\<not> is_digit CHR ''-''" "\<not> is_digit CHR ''+''"
    by (simp_all add: is_digit_def)
  with pre c s have
    "\<not> startsWith (dec n) ''0x''" "\<not> startsWith (dec n) ''0X''"
    "\<not> startsWith (dec n) ''0o''" "\<not> startsWith (dec n) ''0O''"
    "\<not> startsWith (dec n) ''0b''" "\<not> startsWith (dec n) ''0B''"
    "hd (dec n) \<noteq> CHR ''-''" "hd (dec n) \<noteq> CHR ''+''"
    by auto
  then show ?thesis
    using d by (simp add: BigInt_of_string_def trim_digits parse_radix_def parse_digits_dec)
qed

lemma BigInt_roundtrip: "0 \<le> i \<Longrightarrow> BigInt_of_string (BigInt_toString i) = Inr i"
  by (simp add: BigInt_toString_def BigInt_of_string_dec)

section \<open>Fee split\<close>

lemma sdiv_nonneg: "0 \<le> a \<Longrightarrow> 0 < b \<Longrightarrow> a sdiv b = a div (b::int)"
  by (cases "a = 0") (simp_all add: signed_divide_int_def)

text \<open>
  C1. For an amount text that \<open>BigInt\<close> reads as an integer \<open>v \<ge> 0\<close> and a double
  \<open>feePercent\<close> in \<open>[0, 50]\<close>, \<open>calculateFee\<close> returns a breakdown: the basis points
  \<open>bps = Math.round(feePercent * 100)\<close> lie in \<open>[0, 5000]\<close>, \<open>feeAmount\<close> is the text of
  \<open>fee = v * bps div 10000\<close>, \<open>publisherAmount\<close> is the text of \<open>v - fee\<close>, both texts read
  back as these integers, \<open>fee + (v - fee) = v\<close> and \<open>0 \<le> fee \<le> v\<close>.
\<close>

theorem calculateFee_conservation:
  assumes amt: "BigInt_of_string amt = Inr v" and v0: "0 \<le> v"
    and lo: "0 \<le> val (Num m e)" and hi: "val (Num m e) \<le> 50"
  shows "\<exists>bps fee.
           BigInt_of_number (Math_round (js_mul (Num m e) (number_of_int 100))) = Inr bps
         \<and> 0 \<le> bps \<and> bps \<le> 5000
         \<and> fee = v * bps div 10000
         \<and> calculateFee amt (Num m e) =
             Inr \<lparr>totalAmount = amt, publisherAmount = BigInt_toString (v - fee),
                  feeAmount = BigInt_toString fee, feePercent = Num m e\<rparr>
         \<and> BigInt_of_string (BigInt_toString fee) = Inr fee
         \<and> BigInt_of_string (BigInt_toString (v - fee)) = Inr (v - fee)
         \<and> fee + (v - fee) = v \<and> 0 \<le> fee \<and> fee \<le> v"
proof -
  from js_mul_100_range [OF lo hi] obtain m' e' where
    prod: "js_mul (Num m e) (number_of_int 100) = Num m' e'"
    and plo: "0 \<le> val (Num m' e')" and phi: "val (Num m' e') \<le> of_int 5000"
    by auto
  from round_range [OF plo phi] obtain bps where
    bps: "BigInt_of_number (Math_round (Num m' e')) = Inr bps" and b0: "0 \<le> bps" and b1: "bps \<le> 5000"
    by auto
  define fee where "fee = v * bps div 10000"
  have vb: "0 \<le> v * bps" using v0 b0 by simp
  have f0: "0 \<le> fee" using vb by (simp add: fee_def pos_imp_zdiv_nonneg_iff)
  have "v * bps \<le> v * 10000" using v0 b1 by (intro mult_left_mono) simp_all
  then have "v * bps div 10000 \<le> v * 10000 div 10000" by (intro zdiv_mono1) simp_all
  then have f1: "fee \<le> v" by (simp add: fee_def)
  have sd: "(v * bps) sdiv 10000 = fee" using vb by (simp add: sdiv_nonneg fee_def)
  have cf: "calculateFee amt (Num m e) =
      Inr \<lparr>totalAmount = amt, publisherAmount = BigInt_toString (v - fee),
           feeAmount = BigInt_toString fee, feePercent = Num m e\<rparr>"
    unfolding calculateFee_def amt prod bps by (simp add: sd Let_def)
  have "BigInt_of_string (BigInt_toString fee) = Inr fee" using f0 by (rule BigInt_roundtrip)
  moreover have "BigInt_of_string (BigInt_toString (v - fee)) = Inr (v - fee)"
    using f1 by (intro BigInt_roundtrip) simp
  ultimately show ?thesis using prod bps b0 b1 cf f0 f1 fee_def by auto
qed

lemmas str_eval = BigInt_of_string_def trim_def is_space_def startsWith_def parse_radix_def
  digit_of_def BigInt_toString_def dec.simps

text \<open>The documented example: 2 percent of 100000 units.\<close>

theorem calculateFee_conservation_witness:
  "BigInt_of_string ''100000'' = Inr 100000 \<and> val (Num 1 1) = 2
   \<and> calculateFee ''100000'' (Num 1 1) =
       Inr \<lparr>totalAmount = ''100000'', publisherAmount = ''98000'', feeAmount = ''2000'',
            feePercent = Num 1 1\<rparr>"
proof -
  have h1: "BigInt_of_string ''100000'' = Inr 100000" by (simp add: str_eval)
  have h2: "0 \<le> val (Num 1 1)" and h3: "val (Num 1 1) \<le> 50" by simp_all
  have b: "BigInt_of_number (Math_round (js_mul (Num 1 1) (number_of_int 100))) = Inr 200"
    by (simp add: num_eval BigInt_of_number_def cong: let_weak_cong)
  from calculateFee_conservation [OF h1 _ h2 h3] b
  have "calculateFee ''100000'' (Num 1 1) =
      Inr \<lparr>totalAmount = ''100000'', publisherAmount = BigInt_toString (100000 - 100000 * 200 div 10000),
           feeAmount = BigInt_toString (100000 * 200 div 10000), feePercent = Num 1 1\<rparr>"
    by auto
  then show ?thesis using h1 by (simp add: BigInt_toString_def dec.simps)
qed

section \<open>Prices\<close>

lemma replicate_eval: "replicate (numeral k) x = x # replicate (pred_numeral k) x"
  by (simp add: numeral_eq_Suc)

lemmas price_eval = replicate_eval parsePrice_def formatPrice_def parseFloat_def parseInt10_def split_sign_def
  exponent_part_def decimal_number_def digits_val_def is_digit_def isNaN_def is_neg_def
  Number_toString_def toFixed_def fixed_digits_def USDC_DECIMALS_def
  trim_def is_space_def startsWith_def BigInt_toString_def dec.simps

lemma parsePrice_examples:
  "parsePrice ''0'' = Inr ''0''"
  "parsePrice ''0.001'' = Inr ''1000''"
  "parsePrice ''0.01'' = Inr ''10000''"
  "parsePrice ''1.00'' = Inr ''1000000''"
  "parsePrice ''1000.00'' = Inr ''1000000000''"
  by (simp_all add: price_eval num_eval cong: let_weak_cong)

lemma formatPrice_examples:
  "formatPrice ''0'' \<lparr>symbol = Some False, decimals = Some 6\<rparr> = Inr ''0.000000''"
  "formatPrice ''1000'' \<lparr>symbol = Some False, decimals = Some 6\<rparr> = Inr ''0.001000''"
  "formatPrice ''10000'' \<lparr>symbol = Some False, decimals = Some 6\<rparr> = Inr ''0.010000''"
  "formatPrice ''1000000'' \<lparr>symbol = Some False, decimals = Some 6\<rparr> = Inr ''1.000000''"
  "formatPrice ''1000000000'' \<lparr>symbol = Some False, decimals = Some 6\<rparr> = Inr ''1000.000000''"
  by (simp_all add: price_eval num_eval cong: let_weak_cong)

lemma canonical6_examples:
  "canonical6 ''0'' = ''0.000000''"
  "canonical6 ''0.001'' = ''0.001000''"
  "canonical6 ''0.01'' = ''0.010000''"
  "canonical6 ''1.00'' = ''1.000000''"
  "canonical6 ''1000.00'' = ''1000.000000''"
  by (simp_all add: canonical6_def replicate_eval)

text \<open>
  C7. For every price \<open>p\<close> of \<open>"0"\<close>, \<open>"0.001"\<close>, \<open>"0.01"\<close>, \<open>"1.00"\<close>, \<open>"1000.00"\<close>,
  \<open>formatPrice(parsePrice(p), {symbol: false, decimals: 6})\<close> is the canonical 6-decimal
  representation of \<open>p\<close> (\<open>"0.010000"\<close> for \<open>"0.01"\<close>).
\<close>

theorem price_round_trip:
  "format_parsed6 ''0'' = Inr (canonical6 ''0'')
   \<and> format_parsed6 ''0.001'' = Inr (canonical6 ''0.001'')
   \<and> format_parsed6 ''0.01'' = Inr (canonical6 ''0.01'')
   \<and> format_parsed6 ''1.00'' = Inr (canonical6 ''1.00'')
   \<and> format_parsed6 ''1000.00'' = Inr (canonical6 ''1000.00'')
   \<and> format_parsed6 ''0.01'' = Inr ''0.010000''"
  by (simp add: format_parsed6_def parsePrice_examples formatPrice_examples canonical6_examples)

section \<open>Receipt cache\<close>

lemma cache_cleanup_lookup:
  "cache (cache_cleanup c t) k =
     (case cache c k of
        None \<Rightarrow> None
      | Some e \<Rightarrow> if t > entry_expiresAt e then None else Some e)"
  by (simp add: cache_cleanup_def)

text \<open>
  C6. After \<open>set(id, tok, TTL)\<close> at time \<open>t0\<close>, a \<open>get(id)\<close> whose clock readings are at most
  \<open>t0 + TTL * 1000\<close> milliseconds returns \<open>tok\<close>; one whose reading is strictly later returns
  \<open>null\<close> and leaves no entry for \<open>id\<close>; and \<open>get\<close> on an absent or expired entry returns
  \<open>null\<close>.
\<close>

theorem cache_get_after_set:
  "(sweep \<le> t \<and> t \<le> t0 + ttl * 1000 \<longrightarrow>
      fst (cache_get (cache_set c k tok (Some ttl) t0) k sweep t) = Some tok)
   \<and> (t0 + ttl * 1000 < t \<longrightarrow>
        fst (cache_get (cache_set c k tok (Some ttl) t0) k sweep t) = None
        \<and> cache (snd (cache_get (cache_set c k tok (Some ttl) t0) k sweep t)) k = None)
   \<and> ((case cache c k of None \<Rightarrow> True | Some e \<Rightarrow> entry_expiresAt e < t) \<longrightarrow>
        fst (cache_get c k sweep t) = None)"
  by (auto simp: cache_get_def cache_set_def cache_cleanup_lookup Let_def split: option.splits)

theorem cache_get_after_set_witness:
  "fst (cache_get (cache_set (new_ReceiptCache 86400) ''a'' ''tok'' (Some 60) 1000) ''a'' 61000 61000) = Some ''tok''
   \<and> fst (cache_get (cache_set (new_ReceiptCache 86400) ''a'' ''tok'' (Some 60) 1000) ''a'' 61001 61001) = None
   \<and> fst (cache_get (new_ReceiptCache 86400 :: string ReceiptCache) ''a'' 0 0) = None"
  using cache_get_after_set [of 61000 61000 1000 60 "new_ReceiptCache 86400" "''a''" "''tok''"]
    cache_get_after_set [of 61001 61001 1000 60 "new_ReceiptCache 86400" "''a''" "''tok''"]
    cache_get_after_set [of 0 0 0 0 "new_ReceiptCache 86400 :: string ReceiptCache" "''a''" "''tok''"]
  by (simp add: new_ReceiptCache_def)

section \<open>Receipt tokens\<close>

lemma truthy_Some: "truthy (Some s) = (if s = [] then None else Some s)"
  by (simp add: truthy_def)

lemma truthy_None: "truthy None = None"
  by (simp add: truthy_def)

lemma truthy_result: "truthy x = Some s \<Longrightarrow> x = Some s \<and> s \<noteq> []"
  by (auto simp: truthy_def split: option.splits if_splits)

lemma createReceiptToken_mints:
  "s \<noteq> [] \<Longrightarrow>
     createReceiptToken cr r s =
       Inr (Compact \<lparr>alg = HS256, jwt_typ = ''JWT''\<rparr>
              \<lparr>receipt = r, jwt_sub = payer r, jwt_iat = paidAt r, jwt_exp = expiresAt r\<rparr>
              (hmac_sha256 cr s
                 (\<lparr>alg = HS256, jwt_typ = ''JWT''\<rparr>,
                  \<lparr>receipt = r, jwt_sub = payer r, jwt_iat = paidAt r, jwt_exp = expiresAt r\<rparr>)))"
  by (simp add: createReceiptToken_def Let_def)

lemma createReceiptToken_minted:
  "createReceiptToken cr r s = Inr tok \<Longrightarrow>
     s \<noteq> []
     \<and> tok = Compact \<lparr>alg = HS256, jwt_typ = ''JWT''\<rparr>
              \<lparr>receipt = r, jwt_sub = payer r, jwt_iat = paidAt r, jwt_exp = expiresAt r\<rparr>
              (hmac_sha256 cr s
                 (\<lparr>alg = HS256, jwt_typ = ''JWT''\<rparr>,
                  \<lparr>receipt = r, jwt_sub = payer r, jwt_iat = paidAt r, jwt_exp = expiresAt r\<rparr>))"
  by (auto simp: createReceiptToken_def Let_def split: if_splits)

lemma example_token_minted:
  "createReceiptToken example_crypto example_receipt ''secret'' = Inr example_token"
  by (simp add: createReceiptToken_def example_token_def example_receipt_def example_crypto_def Let_def)

text \<open>
  C4, as the code has it. Every non-empty secret \<open>s\<close> mints a token for \<open>r\<close> (the empty one
  mints none). The token verifies with \<open>jwtSecret = s\<close> to \<open>{valid: true, receipt: r}\<close> while
  both clock readings are before \<open>r.expiresAt\<close>; it is rejected under every non-empty other
  secret whose HMAC of the token differs (which is what makes the token differ), and at every
  time after \<open>r.expiresAt\<close> whatever the options.
\<close>

theorem receipt_round_trip:
  "(s \<noteq> [] \<longrightarrow> (\<exists>minted. createReceiptToken cr r s = Inr minted))
   \<and> (createReceiptToken cr r s = Inr tok \<longrightarrow>
        (t1 div 1000 < expiresAt r \<and> t2 div 1000 < expiresAt r \<longrightarrow>
           verifyReceipt cr tok
             \<lparr>jwtSecret = Some s, facilitatorPublicKey = None, expectedContentId = None\<rparr> t1 t2
           = \<lparr>valid = True, verified_receipt = Some r, verify_error = None\<rparr>)
      \<and> (s' \<noteq> [] \<and> createReceiptToken cr r s' \<noteq> Inr tok \<longrightarrow>
           valid (verifyReceipt cr tok
                    \<lparr>jwtSecret = Some s', facilitatorPublicKey = pk, expectedContentId = ex\<rparr> t1 t2) = False)
      \<and> (expiresAt r < t2 div 1000 \<longrightarrow>
           valid (verifyReceipt cr tok options t1 t2) = False))"
proof (intro conjI impI)
  assume "s \<noteq> []"
  then show "\<exists>minted. createReceiptToken cr r s = Inr minted"
    by (simp add: createReceiptToken_mints)
next
  assume m: "createReceiptToken cr r s = Inr tok"
    and "t1 div 1000 < expiresAt r \<and> t2 div 1000 < expiresAt r"
  with createReceiptToken_minted [OF m]
  show "verifyReceipt cr tok
        \<lparr>jwtSecret = Some s, facilitatorPublicKey = None, expectedContentId = None\<rparr> t1 t2
      = \<lparr>valid = True, verified_receipt = Some r, verify_error = None\<rparr>"
    by (simp add: verifyReceipt_def jwtVerify_def decodeJwt_def truthy_Some truthy_None Let_def)
next
  assume m: "createReceiptToken cr r s = Inr tok"
    and "s' \<noteq> [] \<and> createReceiptToken cr r s' \<noteq> Inr tok"
  with createReceiptToken_minted [OF m] createReceiptToken_mints [of s' cr r]
  show "valid (verifyReceipt cr tok
                 \<lparr>jwtSecret = Some s', facilitatorPublicKey = pk, expectedContentId = ex\<rparr> t1 t2) = False"
    by (auto simp: verifyReceipt_def jwtVerify_def truthy_Some Let_def)
next
  assume m: "createReceiptToken cr r s = Inr tok" and "expiresAt r < t2 div 1000"
  with createReceiptToken_minted [OF m]
  show "valid (verifyReceipt cr tok options t1 t2) = False"
    by (auto simp: verifyReceipt_def jwtVerify_def decodeJwt_def Let_def
        split: option.splits sum.splits)
qed

theorem receipt_round_trip_witness:
  "createReceiptToken example_crypto example_receipt ''secret'' = Inr example_token
   \<and> verifyReceipt example_crypto example_token
      \<lparr>jwtSecret = Some ''secret'', facilitatorPublicKey = None, expectedContentId = None\<rparr> 1999000 1999000
    = \<lparr>valid = True, verified_receipt = Some example_receipt, verify_error = None\<rparr>
   \<and> valid (verifyReceipt example_crypto example_token
        \<lparr>jwtSecret = Some ''other'', facilitatorPublicKey = None, expectedContentId = None\<rparr> 1999000 1999000) = False
   \<and> valid (verifyReceipt example_crypto example_token
        \<lparr>jwtSecret = Some ''secret'', facilitatorPublicKey = None, expectedContentId = None\<rparr> 2001000 2001000) = False"
proof -
  have other: "createReceiptToken example_crypto example_receipt ''other'' \<noteq> Inr example_token"
    by (simp add: createReceiptToken_def example_token_def example_crypto_def Let_def)
  have e: "expiresAt example_receipt = 2000" by (simp add: example_receipt_def)
  from receipt_round_trip [of "''secret''" example_crypto example_receipt example_token
      1999000 1999000 "''other''" None None
      "\<lparr>jwtSecret = Some ''secret'', facilitatorPublicKey = None, expectedContentId = None\<rparr>"]
    receipt_round_trip [of "''secret''" example_crypto example_receipt example_token
      2001000 2001000 "''other''" None None
      "\<lparr>jwtSecret = Some ''secret'', facilitatorPublicKey = None, expectedContentId = None\<rparr>"]
    example_token_minted other e
  show ?thesis by simp
qed

text \<open>
  The claim as stated fails for the empty text as the other secret: \<open>verifyReceipt\<close> takes
  an empty \<open>jwtSecret\<close> as absent and only decodes the token.
\<close>

theorem receipt_round_trip_counterexample:
  "'''' \<noteq> ''secret''
   \<and> createReceiptToken example_crypto example_receipt ''secret'' = Inr example_token
   \<and> verifyReceipt example_crypto example_token
        \<lparr>jwtSecret = Some '''', facilitatorPublicKey = None, expectedContentId = None\<rparr> 1999000 1999000
      = \<lparr>valid = True, verified_receipt = Some example_receipt, verify_error = None\<rparr>"
  using example_token_minted
  by (simp add: verifyReceipt_def decodeJwt_def truthy_Some truthy_None
      example_token_def example_receipt_def Let_def)

text \<open>
  C5, as the code has it. A result is valid only if the token decodes, the receipt's
  \<open>expiresAt\<close> is not before the clock, with a secret or a public key the \<open>exp\<close> claim lies
  after the library's clock, and a non-empty \<open>expectedContentId\<close> is the receipt's content
  id; a token minted for a receipt of \<open>"a"\<close> and checked against \<open>"b"\<close> is invalid, with an
  error that quotes \<open>"a"\<close> unless the receipt has expired.
\<close>

theorem verifyReceipt_checks:
  "(valid (verifyReceipt cr tok options t1 t2) \<longrightarrow>
      (\<exists>h p sg. tok = Compact h p sg
         \<and> verified_receipt (verifyReceipt cr tok options t1 t2) = Some (receipt p)
         \<and> t2 div 1000 \<le> expiresAt (receipt p)
         \<and> (truthy (jwtSecret options) \<noteq> None \<or> truthy (facilitatorPublicKey options) \<noteq> None
              \<longrightarrow> t1 div 1000 < jwt_exp p)
         \<and> (\<forall>e. truthy (expectedContentId options) = Some e \<longrightarrow> contentId (receipt p) = e)))
   \<and> (contentId r = ''a'' \<and> createReceiptToken cr r s = Inr minted \<longrightarrow>
        valid (verifyReceipt cr minted
                 \<lparr>jwtSecret = Some s, facilitatorPublicKey = None, expectedContentId = Some ''b''\<rparr> t1 t2) = False)
   \<and> (contentId r = ''a'' \<and> createReceiptToken cr r s = Inr minted
        \<and> t1 div 1000 < expiresAt r \<and> t2 div 1000 \<le> expiresAt r \<longrightarrow>
        verify_error (verifyReceipt cr minted
                 \<lparr>jwtSecret = Some s, facilitatorPublicKey = None, expectedContentId = Some ''b''\<rparr> t1 t2)
          = Some (''Receipt is for content '' @ [CHR 0x22] @ ''a'' @ [CHR 0x22] @ '', not '' @ [CHR 0x22] @ ''b'' @ [CHR 0x22]))"
proof (intro conjI impI)
  assume v: "valid (verifyReceipt cr tok options t1 t2)"
  show "\<exists>h p sg. tok = Compact h p sg
         \<and> verified_receipt (verifyReceipt cr tok options t1 t2) = Some (receipt p)
         \<and> t2 div 1000 \<le> expiresAt (receipt p)
         \<and> (truthy (jwtSecret options) \<noteq> None \<or> truthy (facilitatorPublicKey options) \<noteq> None
              \<longrightarrow> t1 div 1000 < jwt_exp p)
         \<and> (\<forall>e. truthy (expectedContentId options) = Some e \<longrightarrow> contentId (receipt p) = e)"
  proof (cases tok)
    case (Malformed x)
    with v show ?thesis
      by (auto simp: verifyReceipt_def jwtVerify_def decodeJwt_def Let_def
          split: option.splits if_splits)
  next
    case (Compact h p sg)
    with v show ?thesis
      by (auto simp: verifyReceipt_def jwtVerify_def decodeJwt_def Let_def
          split: option.splits if_splits sum.splits verify_key.splits)
  qed
next
  assume a: "contentId r = ''a'' \<and> createReceiptToken cr r s = Inr minted"
  then have m: "createReceiptToken cr r s = Inr minted" by simp
  from a createReceiptToken_minted [OF m]
  show "valid (verifyReceipt cr minted
                 \<lparr>jwtSecret = Some s, facilitatorPublicKey = None, expectedContentId = Some ''b''\<rparr> t1 t2) = False"
    by (auto simp: verifyReceipt_def jwtVerify_def decodeJwt_def truthy_Some
        truthy_None Let_def split: sum.splits)
next
  assume a: "contentId r = ''a'' \<and> createReceiptToken cr r s = Inr minted
        \<and> t1 div 1000 < expiresAt r \<and> t2 div 1000 \<le> expiresAt r"
  then have m: "createReceiptToken cr r s = Inr minted" by simp
  from a createReceiptToken_minted [OF m]
  show "verify_error (verifyReceipt cr minted
                 \<lparr>jwtSecret = Some s, facilitatorPublicKey = None, expectedContentId = Some ''b''\<rparr> t1 t2)
          = Some (''Receipt is for content '' @ [CHR 0x22] @ ''a'' @ [CHR 0x22] @ '', not '' @ [CHR 0x22] @ ''b'' @ [CHR 0x22])"
    by (auto simp: verifyReceipt_def jwtVerify_def decodeJwt_def truthy_Some
        truthy_None Let_def)
qed

theorem verifyReceipt_checks_witness:
  "createReceiptToken example_crypto example_receipt ''secret'' = Inr example_token
   \<and> valid (verifyReceipt example_crypto example_token
      \<lparr>jwtSecret = Some ''secret'', facilitatorPublicKey = None, expectedContentId = Some ''a''\<rparr> 1999000 1999000)
   \<and> (1999000::int) div 1000 \<le> expiresAt example_receipt
   \<and> contentId example_receipt = ''a''
   \<and> valid (verifyReceipt example_crypto example_token
        \<lparr>jwtSecret = Some ''secret'', facilitatorPublicKey = None, expectedContentId = Some ''b''\<rparr> 1999000 1999000) = False
   \<and> verify_error (verifyReceipt example_crypto example_token
        \<lparr>jwtSecret = Some ''secret'', facilitatorPublicKey = None, expectedContentId = Some ''b''\<rparr> 1999000 1999000)
       = Some (''Receipt is for content '' @ [CHR 0x22] @ ''a'' @ [CHR 0x22] @ '', not '' @ [CHR 0x22] @ ''b'' @ [CHR 0x22])"
proof -
  have v: "valid (verifyReceipt example_crypto example_token
      \<lparr>jwtSecret = Some ''secret'', facilitatorPublicKey = None, expectedContentId = Some ''a''\<rparr> 1999000 1999000)"
    by (simp add: verifyReceipt_def example_token_def jwtVerify_def truthy_Some truthy_None
        example_receipt_def example_crypto_def Let_def)
  have c: "contentId example_receipt = ''a''" and e: "expiresAt example_receipt = 2000"
    by (simp_all add: example_receipt_def)
  from verifyReceipt_checks [of example_crypto example_token
      "\<lparr>jwtSecret = Some ''secret'', facilitatorPublicKey = None, expectedContentId = Some ''a''\<rparr>"
      1999000 1999000 example_receipt "''secret''" example_token] v c e example_token_minted
  show ?thesis by simp
qed

text \<open>
  The claim as stated fails twice: with neither a secret nor a public key a receipt is still
  accepted when the clock equals its \<open>exp\<close>, and an empty \<open>expectedContentId\<close> is taken as not
  supplied.
\<close>

theorem verifyReceipt_checks_counterexample:
  "createReceiptToken example_crypto example_receipt ''secret'' = Inr example_token
   \<and> jwt_exp \<lparr>receipt = example_receipt, jwt_sub = payer example_receipt,
            jwt_iat = paidAt example_receipt, jwt_exp = expiresAt example_receipt\<rparr> = 2000000 div 1000
   \<and> valid (verifyReceipt example_crypto example_token
        \<lparr>jwtSecret = None, facilitatorPublicKey = None, expectedContentId = None\<rparr> 2000000 2000000)
   \<and> contentId example_receipt \<noteq> ''''
   \<and> valid (verifyReceipt example_crypto example_token
        \<lparr>jwtSecret = Some ''secret'', facilitatorPublicKey = None, expectedContentId = Some ''''\<rparr> 0 0)"
  using example_token_minted
  by (simp add: verifyReceipt_def example_token_def jwtVerify_def decodeJwt_def
      truthy_Some truthy_None example_receipt_def example_crypto_def Let_def)

section \<open>Receipt headers\<close>

lemma lower_names:
  "toLowerCase ''X-402-Receipt'' = ''x-402-receipt''"
  "toLowerCase ''X-PAYMENT'' = ''x-payment''"
  "toLowerCase ''Authorization'' = ''authorization''"
  "toLowerCase ''X-402-RECEIPT'' = ''x-402-receipt''"
  by (simp_all add: toLowerCase_def lower_char_def)

lemma Headers_get_rename:
  assumes "\<forall>k. toLowerCase (f k) = toLowerCase k"
  shows "Headers_get (map (\<lambda>(k, v). (f k, v)) hs) name = Headers_get hs name"
proof -
  have "map snd (filter (\<lambda>(k, v). toLowerCase k = toLowerCase name) (map (\<lambda>(k, v). (f k, v)) hs))
      = map snd (filter (\<lambda>(k, v). toLowerCase k = toLowerCase name) hs)"
    using assms by (induction hs) auto
  then show ?thesis by (simp add: Headers_get_def)
qed

text \<open>
  C9, as the code has it. The first non-empty hit among \<open>X-402-Receipt\<close>, \<open>X-PAYMENT\<close> and
  \<open>Authorization\<close> stripped of \<open>"X402 "\<close> is returned, \<open>null\<close> when there is none. For a
  \<open>Headers\<close> object the names are matched without regard to case: the lookup of a name
  and the result do not change when names are written in another case. For a plain record
  each name is looked up in its canonical spelling and, failing that, in lower case, and in
  no other spelling: the result depends on those six properties only.
\<close>

theorem extractReceiptFromHeaders_order:
  "extractReceiptFromHeaders (WebHeaders hs) = first_receipt (Headers_get hs)
   \<and> (toLowerCase n = toLowerCase n' \<longrightarrow> Headers_get hs n = Headers_get hs n')
   \<and> ((\<forall>k. toLowerCase (f k) = toLowerCase k) \<longrightarrow>
        extractReceiptFromHeaders (WebHeaders (map (\<lambda>(k, v). (f k, v)) hs))
          = extractReceiptFromHeaders (WebHeaders hs))
   \<and> extractReceiptFromHeaders (PlainRecord ps)
        = first_receipt (\<lambda>name. or_else (map_of ps name) (map_of ps (toLowerCase name)))
   \<and> ((\<forall>name \<in> set [''X-402-Receipt'', ''x-402-receipt'', ''X-PAYMENT'', ''x-payment'',
                         ''Authorization'', ''authorization'']. map_of ps name = map_of qs name) \<longrightarrow>
        extractReceiptFromHeaders (PlainRecord ps) = extractReceiptFromHeaders (PlainRecord qs))"
proof (intro conjI impI)
  show "extractReceiptFromHeaders (WebHeaders hs) = first_receipt (Headers_get hs)"
    by (simp add: extractReceiptFromHeaders_def first_receipt_def)
  show "Headers_get hs n = Headers_get hs n'" if "toLowerCase n = toLowerCase n'"
    using that by (simp add: Headers_get_def)
  show "extractReceiptFromHeaders (WebHeaders (map (\<lambda>(k, v). (f k, v)) hs))
          = extractReceiptFromHeaders (WebHeaders hs)" if "\<forall>k. toLowerCase (f k) = toLowerCase k"
    unfolding extractReceiptFromHeaders_def by (simp only: headers.case Headers_get_rename [OF that])
  show "extractReceiptFromHeaders (PlainRecord ps)
        = first_receipt (\<lambda>name. or_else (map_of ps name) (map_of ps (toLowerCase name)))"
    unfolding extractReceiptFromHeaders_def first_receipt_def lower_names by simp
  show "extractReceiptFromHeaders (PlainRecord ps) = extractReceiptFromHeaders (PlainRecord qs)"
    if "\<forall>name \<in> set [''X-402-Receipt'', ''x-402-receipt'', ''X-PAYMENT'', ''x-payment'',
                         ''Authorization'', ''authorization'']. map_of ps name = map_of qs name"
    using that by (simp add: extractReceiptFromHeaders_def split: option.splits)
qed

lemmas header_eval = extractReceiptFromHeaders_def Headers_get_def toLowerCase_def lower_char_def
  truthy_def or_else_def auth_token_def startsWith_def

theorem extractReceiptFromHeaders_order_witness:
  "Headers_get [(''x-402-receipt'', ''tok'')] ''X-402-Receipt'' = Headers_get [(''x-402-receipt'', ''tok'')] ''X-402-RECEIPT''
   \<and> extractReceiptFromHeaders
        (WebHeaders (map (\<lambda>(k, v). (map (\<lambda>c. if c = CHR ''x'' then CHR ''X'' else c) k, v))
                       [(''x-402-receipt'', ''tok'')]))
       = extractReceiptFromHeaders (WebHeaders [(''x-402-receipt'', ''tok'')])
   \<and> extractReceiptFromHeaders (PlainRecord [(''authorization'', ''X402 tok''), (''Other'', ''x'')])
       = extractReceiptFromHeaders (PlainRecord [(''authorization'', ''X402 tok'')])
   \<and> extractReceiptFromHeaders (WebHeaders [(''x-402-receipt'', ''tok'')]) = Some ''tok''
   \<and> extractReceiptFromHeaders (PlainRecord [(''authorization'', ''X402 tok'')]) = Some ''tok''"
proof -
  have f: "\<forall>k. toLowerCase (map (\<lambda>c. if c = CHR ''x'' then CHR ''X'' else c) k) = toLowerCase k"
    by (auto simp: toLowerCase_def lower_char_def)
  have l: "toLowerCase ''X-402-Receipt'' = toLowerCase ''X-402-RECEIPT''"
    by (simp add: toLowerCase_def lower_char_def)
  have e: "\<forall>name \<in> set [''X-402-Receipt'', ''x-402-receipt'', ''X-PAYMENT'', ''x-payment'',
                         ''Authorization'', ''authorization''].
      map_of [(''authorization'', ''X402 tok''), (''Other'', ''x'')] name = map_of [(''authorization'', ''X402 tok'')] name"
    by simp
  note t = extractReceiptFromHeaders_order
      [of "[(''x-402-receipt'', ''tok'')]"
          "''X-402-Receipt''" "''X-402-RECEIPT''"
          "map (\<lambda>c. if c = CHR ''x'' then CHR ''X'' else c)"
          "[(''authorization'', ''X402 tok''), (''Other'', ''x'')]"
          "[(''authorization'', ''X402 tok'')]"]
  from t l have 1: "Headers_get [(''x-402-receipt'', ''tok'')] ''X-402-Receipt''
      = Headers_get [(''x-402-receipt'', ''tok'')] ''X-402-RECEIPT''" by blast
  from t f have 2: "extractReceiptFromHeaders
        (WebHeaders (map (\<lambda>(k, v). (map (\<lambda>c. if c = CHR ''x'' then CHR ''X'' else c) k, v))
                       [(''x-402-receipt'', ''tok'')]))
       = extractReceiptFromHeaders (WebHeaders [(''x-402-receipt'', ''tok'')])" by blast
  from t e have 3: "extractReceiptFromHeaders (PlainRecord [(''authorization'', ''X402 tok''), (''Other'', ''x'')])
       = extractReceiptFromHeaders (PlainRecord [(''authorization'', ''X402 tok'')])" by blast
  have 4: "extractReceiptFromHeaders (WebHeaders [(''x-402-receipt'', ''tok'')]) = Some ''tok''"
    by (simp add: header_eval)
  have 5: "extractReceiptFromHeaders (PlainRecord [(''authorization'', ''X402 tok'')]) = Some ''tok''"
    by (simp add: header_eval)
  from 1 2 3 4 5 show ?thesis by blast
qed

text \<open>
  The claim as stated fails for a plain record: a name in a third spelling is not found,
  while the same header in a \<open>Headers\<close> object is.
\<close>

theorem extractReceiptFromHeaders_counterexample:
  "extractReceiptFromHeaders (PlainRecord [(''X-402-RECEIPT'', ''tok'')]) = None
   \<and> extractReceiptFromHeaders (WebHeaders [(''X-402-RECEIPT'', ''tok'')]) = Some ''tok''"
  by (simp add: header_eval)

section \<open>Facilitator pipeline\<close>



text \<open>
  C3. For a request that has reached the time-window step (its shape is valid, its network
  resolves and its signature verifies), \<open>handlePayment\<close> answers 400 if and only if
  \<open>validBefore \<le> now\<close> or \<open>validAfter > now\<close>, \<open>now\<close> being the clock in whole seconds; the
  400 carries the message of the time-window check, and otherwise the pipeline goes on to
  the fee split and the transfer, whose answers are 200 or 500 (an exception being that of
  the fee split, or that of signing the receipt with an empty secret).
\<close>

theorem time_window_rejection:
  assumes shape: "validatePayload pl = Valid pl"
    and net: "resolveNetwork (network pl) = Some (net, cid)"
    and sg: "sig_valid (verifySignature (env_recover env) (authorization (payload pl))
                          (signature (payload pl)) cid net)"
  shows "((\<exists>r. handlePayment env pl config exec = Inr r \<and> status r = 400)
            \<longleftrightarrow> (validBefore (authorization (payload pl)) \<le> now_window env div 1000
                 \<or> validAfter (authorization (payload pl)) > now_window env div 1000))
         \<and> (validBefore (authorization (payload pl)) \<le> now_window env div 1000
              \<or> validAfter (authorization (payload pl)) > now_window env div 1000 \<longrightarrow>
             \<not> window_valid (validateTimeWindow (authorization (payload pl)) (now_window env))
             \<and> (\<exists>msg. window_error (validateTimeWindow (authorization (payload pl)) (now_window env)) = Some msg
                   \<and> handlePayment env pl config exec = Inr \<lparr>status = 400, body = ErrorBody msg\<rparr>))
         \<and> (\<not> (validBefore (authorization (payload pl)) \<le> now_window env div 1000
                 \<or> validAfter (authorization (payload pl)) > now_window env div 1000) \<longrightarrow>
             window_valid (validateTimeWindow (authorization (payload pl)) (now_window env))
             \<and> (case handlePayment env pl config exec of
                   Inl err \<Rightarrow>
                     calculateFee (auth_value (authorization (payload pl))) (config_feePercent config) = Inl err
                     \<or> (config_jwtSecret config = [] \<and> err = JsError ''Zero-length key is not supported'')
                 | Inr r \<Rightarrow> status r = 200 \<or> status r = 500))"
proof -
  let ?a = "authorization (payload pl)"
  let ?fails = "validBefore ?a \<le> now_window env div 1000 \<or> validAfter ?a > now_window env div 1000"
  have A: "\<not> window_valid (validateTimeWindow ?a (now_window env))
           \<and> (\<exists>msg. window_error (validateTimeWindow ?a (now_window env)) = Some msg
                 \<and> handlePayment env pl config exec = Inr \<lparr>status = 400, body = ErrorBody msg\<rparr>)"
    if ?fails
    using that shape net sg
    by (auto simp: handlePayment_def validateTimeWindow_def Let_def)
  have B: "window_valid (validateTimeWindow ?a (now_window env))
           \<and> (case handlePayment env pl config exec of
                 Inl err \<Rightarrow>
                   calculateFee (auth_value ?a) (config_feePercent config) = Inl err
                   \<or> (config_jwtSecret config = [] \<and> err = JsError ''Zero-length key is not supported'')
               | Inr r \<Rightarrow> status r = 200 \<or> status r = 500)"
    if "\<not> ?fails"
    using that shape net sg
    by (auto simp: handlePayment_def validateTimeWindow_def createReceiptToken_def Let_def
        split: sum.splits if_splits)
  have C: "(\<exists>r. handlePayment env pl config exec = Inr r \<and> status r = 400) \<longleftrightarrow> ?fails"
  proof
    assume "\<exists>r. handlePayment env pl config exec = Inr r \<and> status r = 400"
    then obtain r where r: "handlePayment env pl config exec = Inr r" "status r = 400" by blast
    show ?fails
    proof (rule ccontr)
      assume "\<not> ?fails"
      from B [OF this] r show False by simp
    qed
  next
    assume ?fails
    from A [OF this] show "\<exists>r. handlePayment env pl config exec = Inr r \<and> status r = 400" by auto
  qed
  from A B C show ?thesis by blast
qed

lemmas handler_eval = validatePayload_def resolveNetwork_def NUMERIC_CHAIN_IDS_def
  verifySignature_def recoverSigner_def validateTimeWindow_def MockTransferExecutor_def
  toLowerCase_def lower_char_def startsWith_def Let_def

text \<open>An authorization whose \<open>validBefore\<close> is the very second of the check is refused.\<close>

theorem time_window_rejection_witness:
  "validBefore (authorization (payload expired_payload)) = now_window example_env div 1000
   \<and> handlePayment example_env expired_payload example_config MockTransferExecutor =
       Inr \<lparr>status = 400,
            body = ErrorBody ''Authorization expired: validBefore 1700000000 <= now 1700000000''\<rparr>"
proof -
  let ?a = "authorization (payload expired_payload)"
  have h1: "validatePayload expired_payload = Valid expired_payload"
    by (simp add: expired_payload_def handler_eval)
  have h2: "resolveNetwork (network expired_payload) = Some (base_mainnet, 8453)"
    by (simp add: expired_payload_def handler_eval str_eval)
  have v: "BigInt_of_string (auth_value ?a) = Inr 100000"
    by (simp add: expired_payload_def str_eval)
  have h3: "sig_valid (verifySignature (env_recover example_env) ?a
                         (signature (payload expired_payload)) 8453 base_mainnet)"
    unfolding verifySignature_def recoverSigner_def v
    by (simp add: example_env_def example_recover_def Let_def)
  have late: "validBefore ?a = now_window example_env div 1000"
    by (simp add: expired_payload_def example_env_def)
  have msg: "window_error (validateTimeWindow ?a (now_window example_env)) =
      Some ''Authorization expired: validBefore 1700000000 <= now 1700000000''"
    by (simp add: expired_payload_def example_env_def validateTimeWindow_def Let_def
        BigInt_toString_def dec.simps)
  from time_window_rejection [OF h1 h2 h3, of example_config MockTransferExecutor] late msg
  have "handlePayment example_env expired_payload example_config MockTransferExecutor =
       Inr \<lparr>status = 400,
            body = ErrorBody ''Authorization expired: validBefore 1700000000 <= now 1700000000''\<rparr>"
    by auto
  with late show ?thesis by blast
qed

subsection \<open>The configuration\<close>

lemma number_50: "number_of_int 50 = Num 25 1"
  by (simp add: num_eval cong: let_weak_cong)

text \<open>
  What \<open>loadConfig\<close> lets through: a non-empty secret, and a fee percent that is a number
  from 0 to 50 or is \<open>NaN\<close>.
\<close>

lemma loadConfig_accepts:
  assumes "loadConfig pe = Inr cfg"
  shows "config_jwtSecret cfg \<noteq> []
         \<and> (config_feePercent cfg = NaN
              \<or> (\<exists>m e. config_feePercent cfg = Num m e \<and> 0 \<le> val (Num m e) \<and> val (Num m e) \<le> 50))"
proof -
  define f where "f = parseFloat (env_or (FEE_PERCENT pe) ''2'')"
  from assms have s: "config_jwtSecret cfg \<noteq> []" and c: "config_feePercent cfg = f"
    and n: "\<not> is_neg f" and l: "\<not> js_less (Num 25 1) f"
    unfolding loadConfig_def Let_def f_def [symmetric] number_50
    by (auto split: sum.splits if_splits)
  have "f = NaN \<or> (\<exists>m e. f = Num m e \<and> 0 \<le> val (Num m e) \<and> val (Num m e) \<le> 50)"
  proof (cases f)
    case (Num m e)
    from n Num have "0 \<le> m" by (simp add: is_neg_def)
    then have "0 \<le> val (Num m e)" by (simp only: val_pos)
    moreover have "val (Num 25 1) = 50" by simp
    then have "val (Num m e) \<le> 50" using l Num by (simp only: js_less.simps not_less)
    ultimately show ?thesis using Num by blast
  qed (use n l in \<open>simp_all add: is_neg_def\<close>)
  with s c show ?thesis by simp
qed


subsection \<open>The receipt of a payment\<close>






section \<open>Budget error codes\<close>

lemma parsePrice_more_examples:
  "parsePrice ''5.00'' = Inr ''5000000''"
  by (simp_all add: price_eval num_eval cong: let_weak_cong)

lemma price_units_examples:
  "price_units ''1.00'' = Inr 1000000"
  "price_units ''5.00'' = Inr 5000000"
  by (simp_all add: price_units_def parsePrice_examples parsePrice_more_examples str_eval)

text \<open>
  With an allow-list that is not the empty list, the code \<open>assertSpend\<close> raises names the
  check on which \<open>checkSpend\<close> refused, and \<open>assertSpend\<close> returns when \<open>checkSpend\<close> allows.
\<close>

lemma assertSpend_allowed:
  "checkSpend bm amt dmn = Inr chk \<Longrightarrow> allowed chk \<Longrightarrow> assertSpend bm amt dmn = None"
  by (simp add: assertSpend_def)

lemma assertSpend_codes:
  assumes chk: "checkSpend bm amt dmn = Inr chk" and no: "\<not> allowed chk"
    and list: "allowedDomains (policy bm) \<noteq> Some []"
  shows "\<exists>msg code. reason chk = Some msg \<and> assertSpend bm amt dmn = Some (X402BudgetError msg code)
           \<and> (code = DOMAIN_NOT_ALLOWED \<longleftrightarrow> domain_refused (policy bm) dmn \<noteq> None)
           \<and> (code = PER_REQUEST_LIMIT \<longleftrightarrow>
                 domain_refused (policy bm) dmn = None
                 \<and> (\<exists>mpr lim a. truthy (maxPerRequest (policy bm)) = Some mpr
                       \<and> price_units mpr = Inr lim \<and> price_units amt = Inr a \<and> a > lim))"
  using chk no list
  unfolding assertSpend_def checkSpend_def check_per_request_def check_total_def domain_refused_def
  by (auto simp: Let_def split: option.splits sum.splits if_splits)

text \<open>
  C8. With the empty allow-list \<open>checkSpend\<close> skips the domain check and refuses 5.00 for the
  per-request limit of 1.00, while \<open>assertSpend\<close> raises \<open>DOMAIN_NOT_ALLOWED\<close> with the
  per-request message.
\<close>

theorem assertSpend_empty_allow_list:
  "domain_refused (policy open_list_manager) (Some ''example.com'') = None
   \<and> checkSpend open_list_manager ''5.00'' (Some ''example.com'') =
       Inr \<lparr>allowed = False,
            reason = Some ''Amount 5.00 USDC exceeds per-request limit of 1.00 USDC''\<rparr>
   \<and> assertSpend open_list_manager ''5.00'' (Some ''example.com'') =
       Some (X402BudgetError ''Amount 5.00 USDC exceeds per-request limit of 1.00 USDC''
               DOMAIN_NOT_ALLOWED)"
proof -
  have d: "domain_refused (policy open_list_manager) (Some ''example.com'') = None"
    by (simp add: open_list_manager_def new_BudgetManager_def domain_refused_def truthy_def)
  have c: "checkSpend open_list_manager ''5.00'' (Some ''example.com'') =
       Inr \<lparr>allowed = False,
            reason = Some ''Amount 5.00 USDC exceeds per-request limit of 1.00 USDC''\<rparr>"
    unfolding checkSpend_def d
    by (simp add: price_units_examples check_per_request_def open_list_manager_def
        new_BudgetManager_def truthy_def)
  have a: "assertSpend open_list_manager ''5.00'' (Some ''example.com'') =
       Some (X402BudgetError ''Amount 5.00 USDC exceeds per-request limit of 1.00 USDC''
               DOMAIN_NOT_ALLOWED)"
    unfolding assertSpend_def c
    by (simp add: open_list_manager_def new_BudgetManager_def truthy_def)
  from d c a show ?thesis by blast
qed

section \<open>Remaining budget as text\<close>

lemma fl_ratio_pow2:
  assumes p: "0 \<le> p" and q: "0 < q" and le: "p \<le> 2 ^ t * q" and t: "t \<le> 1023"
  shows "\<exists>m e. fl_ratio p q = Num m e \<and> 0 \<le> val (Num m e) \<and> val (Num m e) \<le> 2 ^ t"
proof (cases "p = 0")
  case True
  then show ?thesis by (simp add: fl_ratio_def)
next
  case False
  define e0 where "e0 = int (nbits (nat p)) - int (nbits (nat q))"
  define e where "e = (if (if 0 \<le> e0 then q * 2 ^ nat e0 \<le> p else q \<le> p * 2 ^ nat (- e0))
                        then e0 else e0 - 1)"
  define k where "k = max (e - 52) (- 1074)"
  define m where "m = (if 0 \<le> k then rne_div p (q * 2 ^ nat k) else rne_div (p * 2 ^ nat (- k)) q)"
  have np: "\<not> p < 0" "\<bar>p\<bar> = p" using p by auto
  have unfold: "fl_ratio p q = (if 1024 < int (nbits (nat m)) + k then PosInf else canon m k)"
    by (simp only: fl_ratio_def Let_def e0_def e_def k_def m_def np False if_False)
  have "q < 2 ^ nbits (nat q)" using nbits_lt [of "nat q"] q
    by (metis nat_less_iff of_nat_numeral of_nat_power order_less_imp_le)
  then have "2 ^ t * q < 2 ^ t * (2 ^ nbits (nat q) :: int)" by simp
  with le have "p < 2 ^ t * (2 ^ nbits (nat q) :: int)" by linarith
  then have "p < 2 ^ (t + nbits (nat q))" by (simp only: power_add)
  then have "nat p < 2 ^ (t + nbits (nat q))" using p
    by (metis nat_less_iff of_nat_numeral of_nat_power)
  then have "nbits (nat p) \<le> t + nbits (nat q)" by (rule nbits_le)
  then have e0: "e0 \<le> int t" by (simp add: e0_def)
  have "e \<le> e0" by (simp add: e_def)
  with e0 have et: "e \<le> int t" by simp
  show ?thesis
  proof (cases "0 \<le> k")
    case True
    define i where "i = nat k"
    have ki: "k = int i" using True by (simp add: i_def)
    have "k = e - 52 \<or> k = - 1074" by (auto simp: k_def max_def)
    with True have "k \<le> e - 52" by auto
    with et ki have it: "i \<le> t" by simp
    have m_eq: "m = rne_div p (q * 2 ^ i)" using True by (simp add: m_def i_def)
    have "(2::int) ^ t = 2 ^ (t - i) * 2 ^ i" using it by (simp flip: power_add)
    with le have "p \<le> 2 ^ (t - i) * (q * 2 ^ i)" by (simp add: mult.assoc mult.left_commute mult.commute)
    with p q have mb: "0 \<le> m \<and> m \<le> 2 ^ (t - i)"
      unfolding m_eq by (intro rne_div_bounds) simp_all
    moreover have "(0::int) < 2 ^ (t - i)" by simp
    ultimately have "m < 2 * 2 ^ (t - i)" by linarith
    then have "m < 2 ^ (t - i + 1)" by simp
    then have "nat m < 2 ^ (t - i + 1)" using mb
      by (metis nat_less_iff of_nat_numeral of_nat_power)
    then have "nbits (nat m) \<le> t - i + 1" by (rule nbits_le)
    with ki it t have "\<not> 1024 < int (nbits (nat m)) + k" by simp
    with unfold have fl: "fl_ratio p q = canon m k" by simp
    obtain m' e' where c: "canon m k = Num m' e'" using canon_is_Num by blast
    have v: "val (Num m' e') = of_int m * 2 ^ i"
      using canon_val [of m k] c ki by (simp add: power_int_nonneg_exp)
    have "(of_int m :: rat) \<le> 2 ^ (t - i)"
      using mb by (metis of_int_le_iff of_int_numeral of_int_power)
    then have "(of_int m :: rat) * 2 ^ i \<le> 2 ^ (t - i) * 2 ^ i" by simp
    also have "\<dots> = (2::rat) ^ t" using it by (simp flip: power_add)
    finally have "(of_int m :: rat) * 2 ^ i \<le> 2 ^ t" .
    moreover have "0 \<le> (of_int m :: rat) * 2 ^ i" using mb by simp
    ultimately show ?thesis using fl c v by simp
  next
    case False
    define j where "j = nat (- k)"
    have kj: "k = - int j" using False by (simp add: j_def)
    have m_eq: "m = rne_div (p * 2 ^ j) q" using False by (simp add: m_def j_def)
    have "p * 2 ^ j \<le> 2 ^ (t + j) * q" using le
      by (simp add: power_add mult.assoc mult.left_commute mult.commute)
    with p q have mb: "0 \<le> m \<and> m \<le> 2 ^ (t + j)"
      unfolding m_eq by (intro rne_div_bounds) simp_all
    moreover have "(0::int) < 2 ^ (t + j)" by simp
    ultimately have "m < 2 * 2 ^ (t + j)" by linarith
    then have "m < 2 ^ (t + j + 1)" by simp
    then have "nat m < 2 ^ (t + j + 1)" using mb
      by (metis nat_less_iff of_nat_numeral of_nat_power)
    then have "nbits (nat m) \<le> t + j + 1" by (rule nbits_le)
    with kj t have "\<not> 1024 < int (nbits (nat m)) + k" by simp
    with unfold have fl: "fl_ratio p q = canon m k" by simp
    obtain m' e' where c: "canon m k = Num m' e'" using canon_is_Num by blast
    have v: "val (Num m' e') = of_int m / 2 ^ j"
      using canon_val [of m k] c False by (simp add: pow2_neg j_def)
    have "(of_int m :: rat) \<le> 2 ^ (t + j)"
      using mb by (metis of_int_le_iff of_int_numeral of_int_power)
    then have "of_int m / 2 ^ j \<le> (2::rat) ^ t" by (simp add: divide_le_eq power_add)
    moreover have "0 \<le> (of_int m :: rat) / 2 ^ j" using mb by simp
    ultimately show ?thesis using fl c v by simp
  qed
qed


lemma val_le_int:
  "val (Num m e) \<le> of_int B \<longleftrightarrow> (if 0 \<le> e then m * 2 ^ nat e \<le> B else m \<le> B * 2 ^ nat (- e))"
proof (cases "0 \<le> e")
  case True
  then have "val (Num m e) = of_int (m * 2 ^ nat e)" by (simp add: power_int_nonneg_exp)
  then show ?thesis using True by (simp only: of_int_le_iff if_True)
next
  case False
  then have "val (Num m e) = of_int m / 2 ^ nat (- e)" by (simp add: pow2_neg)
  moreover have "(of_int m / 2 ^ nat (- e) \<le> (of_int B :: rat)) \<longleftrightarrow> (of_int m :: rat) \<le> of_int (B * 2 ^ nat (- e))"
    by (simp add: divide_le_eq)
  ultimately show ?thesis using False by (simp only: of_int_le_iff if_False)
qed

lemma digit_code: "d < 10 \<Longrightarrow> (of_char (''0123456789'' ! d) :: nat) = 48 + d"
proof -
  assume "d < 10"
  then have "d \<in> {0, 1, 2, 3, 4, 5, 6, 7, 8, 9}" by auto
  then show ?thesis by auto
qed

lemma digits_val_dec: "digits_val (dec n) = n"
proof (induction n rule: dec.induct)
  case (1 n)
  show ?case
  proof (cases "n < 10")
    case True
    then show ?thesis using digit_code [of n] by (simp add: dec.simps [of n] digits_val_def)
  next
    case False
    with 1 digit_code [of "n mod 10"] show ?thesis
      by (simp add: dec.simps [of n] digits_val_def)
  qed
qed

lemma parseInt10_dec: "parseInt10 (dec n) = fl_ratio (int n) 1"
proof -
  have d: "dec n \<noteq> []" "\<forall>c\<in>set (dec n). is_digit c" using dec_digits by auto
  then obtain c cs where s: "dec n = c # cs" by (cases "dec n") auto
  have c: "is_digit c" using d s by simp
  have sp: "dropWhile is_space (dec n) = dec n" using c s by (simp add: digit_not_space)
  have "c \<noteq> CHR ''-''" "c \<noteq> CHR ''+''" using c by (auto simp: is_digit_def)
  then have sg: "split_sign (dec n) = (False, dec n)" by (simp add: split_sign_def s)
  have tk: "takeWhile is_digit (dec n) = dec n" using d by (simp add: takeWhile_eq_all_conv)
  show ?thesis
    by (simp add: parseInt10_def sp sg tk d digits_val_dec decimal_number_def)
qed

lemma divisor_6: "number_of_int 1000000 = Num 15625 6"
  by (simp add: num_eval cong: let_weak_cong)

text \<open>A remaining budget from 0 to \<open>2^71\<close> units is formatted.\<close>

lemma formatPrice_remaining:
  assumes r0: "0 \<le> r" and r1: "r \<le> 2 ^ 71"
  shows "\<exists>s. formatPrice (BigInt_toString r) plain_format = Inr s"
proof -
  have str: "BigInt_toString r = dec (nat r)" using r0 by (simp add: BigInt_toString_def)
  from fl_ratio_pow2 [of r 1 71] r0 r1 obtain m e where
    fl: "fl_ratio r 1 = Num m e" and lo: "0 \<le> val (Num m e)" and hi: "val (Num m e) \<le> 2 ^ 71"
    by auto
  have pn: "parseInt10 (BigInt_toString r) = Num m e"
    using parseInt10_dec [of "nat r"] r0 fl by (simp add: str)
  have m0: "0 \<le> m" using lo by (simp only: val_pos)
  have "val (Num m e) \<le> of_int (2 ^ 71)" using hi by simp
  then have mB: "if 0 \<le> e then m * 2 ^ nat e \<le> 2 ^ 71 else m \<le> 2 ^ 71 * 2 ^ nat (- e)"
    by (simp only: val_le_int)
  have "\<exists>m' e'. js_div (Num m e) (Num 15625 6) = Num m' e' \<and> 0 \<le> val (Num m' e')
          \<and> val (Num m' e') \<le> 2 ^ 52"
  proof (cases "0 \<le> e - 6")
    case True
    then have e6: "nat e = nat (e - 6) + 6" by simp
    have "m * 2 ^ nat e \<le> 2 ^ 71" using mB True by simp
    then have "m * 2 ^ nat (e - 6) * 64 \<le> 2 ^ 71" unfolding e6 power_add by (simp add: mult.assoc)
    then have "m * 2 ^ nat (e - 6) \<le> 2 ^ 52 * 15625" by simp
    moreover have "0 \<le> m * 2 ^ nat (e - 6)" using m0 by simp
    ultimately have "\<exists>m' e'. fl_ratio (m * 2 ^ nat (e - 6)) 15625 = Num m' e' \<and> 0 \<le> val (Num m' e')
          \<and> val (Num m' e') \<le> 2 ^ 52"
      by (intro fl_ratio_pow2) simp_all
    then show ?thesis using True by (simp add: Let_def)
  next
    case False
    have "m \<le> 2 ^ 52 * (15625 * 2 ^ nat (- (e - 6)))"
    proof (cases "0 \<le> e")
      case True
      with False have "e \<in> {0, 1, 2, 3, 4, 5}" by auto
      with mB show ?thesis by auto
    next
      case neg: False
      then have "nat (- (e - 6)) = nat (- e) + 6" by simp
      moreover have "m \<le> 2 ^ 71 * 2 ^ nat (- e)" using mB neg by simp
      moreover have "(2::int) ^ 71 * 2 ^ nat (- e) \<le> 2 ^ 52 * (15625 * (2 ^ nat (- e) * 2 ^ 6))" by simp
      ultimately show ?thesis by (simp only: power_add)
    qed
    with m0 have "\<exists>m' e'. fl_ratio m (15625 * 2 ^ nat (- (e - 6))) = Num m' e' \<and> 0 \<le> val (Num m' e')
          \<and> val (Num m' e') \<le> 2 ^ 52"
      by (intro fl_ratio_pow2) simp_all
    then show ?thesis using False by (simp add: Let_def)
  qed
  then obtain m' e' where dv: "js_div (Num m e) (Num 15625 6) = Num m' e'"
    and lo': "0 \<le> val (Num m' e')" and hi': "val (Num m' e') \<le> 2 ^ 52" by blast
  have m0': "0 \<le> m'" using lo' by (simp only: val_pos)
  have "val (Num m' e') \<le> of_int (2 ^ 52)" using hi' by simp
  then have mB': "if 0 \<le> e' then m' * 2 ^ nat e' \<le> 2 ^ 52 else m' \<le> 2 ^ 52 * 2 ^ nat (- e')"
    by (simp only: val_le_int)
  have small: "\<not> (if 0 \<le> e' then 10 ^ 21 \<le> \<bar>m'\<bar> * 2 ^ nat e' else 10 ^ 21 * 2 ^ nat (- e') \<le> \<bar>m'\<bar>)"
  proof (cases "0 \<le> e'")
    case True
    with mB' m0' show ?thesis by simp
  next
    case False
    have lt: "(2::int) ^ 52 * 2 ^ nat (- e') < 10 ^ 21 * 2 ^ nat (- e')" by simp
    from mB' False have "m' \<le> 2 ^ 52 * 2 ^ nat (- e')" by (simp only: if_False)
    from this lt have "m' < 10 ^ 21 * 2 ^ nat (- e')" by (rule order_le_less_trans)
    then show ?thesis unfolding if_not_P [OF False] abs_of_nonneg [OF m0'] by (simp only: not_le)
  qed
  obtain s where tf: "toFixed (Num m' e') 2 = Inr s"
    using small by (simp add: toFixed_def Let_def)
  show ?thesis
    using tf m0
    by (simp add: formatPrice_def plain_format_def pn divisor_6 dv isNaN_def is_neg_def
        USDC_DECIMALS_def Let_def del: js_div.simps)
qed


section \<open>Prices in units\<close>

lemma BigInt_roundtrip_neg: "i < 0 \<Longrightarrow> BigInt_of_string (BigInt_toString i) = Inr i"
proof -
  assume neg: "i < 0"
  define n where "n = nat (- i)"
  have str: "BigInt_toString i = CHR ''-'' # dec n" using neg by (simp add: BigInt_toString_def n_def)
  have d: "dec n \<noteq> []" "\<forall>c\<in>set (dec n). is_digit c" using dec_digits by auto
  have m: "\<not> is_space CHR ''-''" by (simp add: is_space_def)
  have "dropWhile is_space (rev (dec n)) = rev (dec n)"
    using d by (cases "rev (dec n)") (auto simp: digit_not_space dest!: arg_cong [where f = set])
  then have "dropWhile is_space (rev (dec n) @ [CHR ''-'']) = rev (dec n) @ [CHR ''-'']"
    using d by (simp add: dropWhile_append3 dropWhile_append1 dropWhile_eq_self_iff hd_rev)
  then have tr: "trim (CHR ''-'' # dec n) = CHR ''-'' # dec n" using m by (simp add: trim_def)
  have "parse_radix 10 (dec n) = Some n" using d by (simp add: parse_radix_def parse_digits_dec)
  then have "BigInt_of_string (CHR ''-'' # dec n) = Inr (- int n)"
    by (simp add: BigInt_of_string_def tr startsWith_def)
  then show ?thesis using neg by (simp add: str n_def)
qed

lemma BigInt_roundtrip_all: "BigInt_of_string (BigInt_toString i) = Inr i"
  using BigInt_roundtrip [of i] BigInt_roundtrip_neg [of i] by (cases "0 \<le> i") auto

lemma Number_toString_result:
  "Number_toString y = Inr s \<Longrightarrow>
     s = ''NaN'' \<or> s = ''Infinity'' \<or> s = ''-Infinity'' \<or> (\<exists>i. \<bar>i\<bar> < 2 ^ 53 \<and> s = BigInt_toString i)"
  unfolding Number_toString_def by (auto split: number.splits option.splits if_splits)

lemma BigInt_of_names:
  "BigInt_of_string ''NaN'' = Inl SyntaxError"
  "BigInt_of_string ''Infinity'' = Inl SyntaxError"
  "BigInt_of_string ''-Infinity'' = Inl SyntaxError"
  by (simp_all add: str_eval)

lemma price_units_bound:
  assumes "price_units x = Inr v"
  shows "\<bar>v\<bar> < 2 ^ 53"
proof -
  from assms obtain s where s: "parsePrice x = Inr s" and v: "BigInt_of_string s = Inr v"
    by (auto simp: price_units_def split: sum.splits)
  from s obtain y where "Number_toString y = Inr s"
    by (auto simp: parsePrice_def Let_def split: if_splits)
  from Number_toString_result [OF this] v show ?thesis
    by (auto simp: BigInt_of_names BigInt_roundtrip_all)
qed

section \<open>Payments of the agent\<close>

lemma assertSpend_returns:
  "assertSpend bm amt dmn = None \<Longrightarrow> \<exists>chk. checkSpend bm amt dmn = Inr chk \<and> allowed chk"
  unfolding assertSpend_def
  by (auto simp: Let_def split: sum.splits if_splits option.splits)

lemma checkSpend_allows:
  assumes "checkSpend bm amt dmn = Inr chk" and "allowed chk"
  shows "\<exists>a. price_units amt = Inr a
           \<and> (\<forall>mt. truthy (maxTotal (policy bm)) = Some mt \<longrightarrow>
                  (\<exists>lim. price_units mt = Inr lim \<and> totalSpent bm + a \<le> lim))"
  using assms
  unfolding checkSpend_def check_per_request_def check_total_def
  by (auto simp: Let_def split: option.splits sum.splits if_splits)

lemma recordSpend_returns:
  assumes s: "parsePrice prc = Inr s" and a: "BigInt_of_string s = Inr a"
    and tot: "\<forall>mt. truthy (maxTotal (policy bm)) = Some mt \<longrightarrow>
                (\<exists>lim. price_units mt = Inr lim \<and> totalSpent bm + a \<le> lim)"
    and spent: "0 \<le> totalSpent bm"
  shows "\<exists>w. recordSpend bm s cid dmn now =
           (None, w, bm\<lparr>totalSpent := totalSpent bm + a,
                        history := history bm @ [\<lparr>record_contentId = cid, record_amount = s,
                                                  record_domain = dmn, record_timestamp = now\<rparr>]\<rparr>)"
proof (cases "truthy (maxTotal (policy bm))")
  case None
  then show ?thesis by (simp add: recordSpend_def a Let_def)
next
  case (Some mt)
  with tot obtain lim where lim: "price_units mt = Inr lim" and le: "totalSpent bm + a \<le> lim" by blast
  have "price_units prc = Inr a" using s a by (simp add: price_units_def)
  from price_units_bound [OF this] price_units_bound [OF lim]
  have "lim - (totalSpent bm + a) \<le> 2 ^ 71" using spent by simp
  with le obtain shown where
    "formatPrice (BigInt_toString (lim - (totalSpent bm + a))) plain_format = Inr shown"
    using formatPrice_remaining [of "lim - (totalSpent bm + a)"] by auto
  then show ?thesis by (simp add: recordSpend_def a Some lim Let_def)
qed

lemma BigInt_toString_nonempty: "BigInt_toString i \<noteq> []"
  using dec_digits by (simp add: BigInt_toString_def)

text \<open>After a spend that \<open>assertSpend\<close> let through, the steps that follow the facilitator's answer all return.\<close>

lemma settle_payment_returns:
  assumes ok: "assertSpend (budget c1) (price req) (Some dmn) = None"
    and spent: "0 \<le> totalSpent (budget c1)"
  shows "\<exists>out c' s a. settle_payment env req dmn result c1 = (Inr out, c')
           \<and> receiptToken out = response_receipt result
           \<and> parsePrice (price req) = Inr s \<and> BigInt_of_string s = Inr a
           \<and> receiptCache c' = cache_set (receiptCache c1) (request_contentId req)
                                  (response_receipt result) None (t_cache env)
           \<and> budget c' = (budget c1)\<lparr>totalSpent := totalSpent (budget c1) + a,
                  history := history (budget c1) @
                    [\<lparr>record_contentId = request_contentId req, record_amount = s,
                      record_domain = dmn, record_timestamp = t_record env\<rparr>]\<rparr>"
proof -
  let ?bm = "budget c1"
  from assertSpend_returns [OF ok] obtain chk where
    "checkSpend ?bm (price req) (Some dmn) = Inr chk" "allowed chk" by blast
  from checkSpend_allows [OF this] obtain a where
    pu: "price_units (price req) = Inr a"
    and tot: "\<forall>mt. truthy (maxTotal (policy ?bm)) = Some mt \<longrightarrow>
                (\<exists>lim. price_units mt = Inr lim \<and> totalSpent ?bm + a \<le> lim)"
    by blast
  from pu obtain s where s: "parsePrice (price req) = Inr s" and a: "BigInt_of_string s = Inr a"
    by (auto simp: price_units_def split: sum.splits)
  define bm' where "bm' = ?bm\<lparr>totalSpent := totalSpent ?bm + a,
      history := history ?bm @ [\<lparr>record_contentId = request_contentId req, record_amount = s,
                                 record_domain = dmn, record_timestamp = t_record env\<rparr>]\<rparr>"
  from recordSpend_returns [OF s a tot spent] obtain w where
    rs: "recordSpend ?bm s (request_contentId req) dmn (t_record env) = (None, w, bm')"
    unfolding bm'_def by blast
  have rem: "\<exists>shown. (case getRemainingSmallest bm' of
                 Inl err \<Rightarrow> Inl err
               | Inr remaining \<Rightarrow>
                   (case truthy remaining of
                      None \<Rightarrow> Inr None
                    | Some r \<Rightarrow> (case formatPrice r plain_format of
                                  Inl err \<Rightarrow> Inl err
                                | Inr shown \<Rightarrow> Inr (Some shown)))) = (Inr shown :: js_error + string option)"
  proof (cases "truthy (maxTotal (policy ?bm))")
    case None
    then show ?thesis by (simp add: getRemainingSmallest_def bm'_def truthy_None)
  next
    case (Some mt)
    with tot obtain lim where lim: "price_units mt = Inr lim" and le: "totalSpent ?bm + a \<le> lim"
      by blast
    from price_units_bound [OF pu] price_units_bound [OF lim]
    have "lim - (totalSpent ?bm + a) \<le> 2 ^ 71" using spent by simp
    with le obtain shown where
      "formatPrice (BigInt_toString (lim - (totalSpent ?bm + a))) plain_format = Inr shown"
      using formatPrice_remaining [of "lim - (totalSpent ?bm + a)"] by auto
    then show ?thesis
      by (simp add: getRemainingSmallest_def bm'_def Some lim truthy_Some BigInt_toString_nonempty)
  qed
  then obtain shown where rem': "(case getRemainingSmallest bm' of
                 Inl err \<Rightarrow> Inl err
               | Inr remaining \<Rightarrow>
                   (case truthy remaining of
                      None \<Rightarrow> Inr None
                    | Some r \<Rightarrow> (case formatPrice r plain_format of
                                  Inl err \<Rightarrow> Inl err
                                | Inr shown \<Rightarrow> Inr (Some shown)))) = (Inr shown :: js_error + string option)"
    by blast
  then obtain remaining where gr: "getRemainingSmallest bm' = Inr remaining"
    and fr: "(case truthy remaining of
                      None \<Rightarrow> Inr None
                    | Some r \<Rightarrow> (case formatPrice r plain_format of
                                  Inl err \<Rightarrow> Inl err
                                | Inr shown \<Rightarrow> Inr (Some shown))) = (Inr shown :: js_error + string option)"
    by (auto split: sum.splits)
  have "\<exists>c'. settle_payment env req dmn result c1 =
          (Inr \<lparr>receiptToken = response_receipt result, outcome_txHash = response_txHash result\<rparr>, c')
        \<and> receiptCache c' = cache_set (receiptCache c1) (request_contentId req)
                               (response_receipt result) None (t_cache env)
        \<and> budget c' = bm'"
    unfolding settle_payment_def Let_def s
    by (simp add: rs gr fr emit_def)
  with s a show ?thesis unfolding bm'_def by fastforce
qed


text \<open>
  C10. A call of \<open>executePayment\<close> on a client whose spent total is not negative either
  raises, and then the receipt cache and the budget manager (spent total and history) are
  what they were before the call, the exception being that of the budget check, of the
  signing, or of the submission to the facilitator after its retries; or it returns, and then
  the facilitator has returned a receipt, which is the one entry put into the cache, and the
  one spend appended to the history is the price in units, added to the spent total.
\<close>

theorem executePayment_atomic:
  assumes spent: "0 \<le> totalSpent (budget c)"
    and run: "executePayment env c req = (res, c')"
  shows "case res of
           Inl err \<Rightarrow>
             receiptCache c' = receiptCache c \<and> budget c' = budget c
             \<and> (assertSpend (budget c) (price req)
                   (Some (extractDomain env (request_facilitatorUrl req))) = Some err
                \<or> (\<exists>typedData auth.
                      buildTransferAuthorization (wallet_address c) (payTo req) (price req)
                        (client_network c) (t_build env) (fresh_nonce env) = Inr (typedData, auth)
                      \<and> signTypedData env typedData = Inl err)
                \<or> submitToFacilitatorWithRetry (responses env)
                     (case truthy (Some (request_facilitatorUrl req)) of
                        None \<Rightarrow> client_facilitatorUrl c | Some u \<Rightarrow> u)
                     (retryConfig c) = Inl err)
         | Inr out \<Rightarrow>
             (\<exists>result s a.
                submitToFacilitatorWithRetry (responses env)
                  (case truthy (Some (request_facilitatorUrl req)) of
                     None \<Rightarrow> client_facilitatorUrl c | Some u \<Rightarrow> u)
                  (retryConfig c) = Inr result
              \<and> receiptToken out = response_receipt result
              \<and> parsePrice (price req) = Inr s \<and> BigInt_of_string s = Inr a
              \<and> receiptCache c' = cache_set (receiptCache c) (request_contentId req)
                                     (response_receipt result) None (t_cache env)
              \<and> budget c' = (budget c)\<lparr>totalSpent := totalSpent (budget c) + a,
                     history := history (budget c) @
                       [\<lparr>record_contentId = request_contentId req, record_amount = s,
                         record_domain = extractDomain env (request_facilitatorUrl req),
                         record_timestamp = t_record env\<rparr>]\<rparr>)"
proof -
  define dmn where "dmn = extractDomain env (request_facilitatorUrl req)"
  define url where "url = (case truthy (Some (request_facilitatorUrl req)) of
                             None \<Rightarrow> client_facilitatorUrl c | Some u \<Rightarrow> u)"
  define c1 where "c1 = emit c \<lparr>event_type = payment_started, event_contentId = request_contentId req,
      event_amount = Some (price req), event_error = None, budgetRemaining = None,
      event_timestamp = t_started env\<rparr>"
  have same: "budget c1 = budget c" "receiptCache c1 = receiptCache c" "retryConfig c1 = retryConfig c"
    "wallet_address c1 = wallet_address c" "client_network c1 = client_network c"
    "client_facilitatorUrl c1 = client_facilitatorUrl c"
    by (simp_all add: c1_def emit_def)
  have fails: "receiptCache (snd (payment_fails env req err c1)) = receiptCache c
      \<and> budget (snd (payment_fails env req err c1)) = budget c
      \<and> fst (payment_fails env req err c1) = Inl err" for err
    by (simp add: payment_fails_def emit_def same)
  have unfold: "executePayment env c req =
     (case assertSpend (budget c) (price req) (Some dmn) of
        Some err \<Rightarrow> payment_fails env req err c1
      | None \<Rightarrow>
          (case buildTransferAuthorization (wallet_address c) (payTo req) (price req) (client_network c)
                  (t_build env) (fresh_nonce env) of
             Inl err \<Rightarrow> payment_fails env req err c1
           | Inr (typedData, auth) \<Rightarrow>
               (case signTypedData env typedData of
                  Inl err \<Rightarrow> payment_fails env req err c1
                | Inr sg \<Rightarrow>
                    (case submitToFacilitatorWithRetry (responses env) url (retryConfig c) of
                       Inl err \<Rightarrow> payment_fails env req err c1
                     | Inr result \<Rightarrow> settle_payment env req dmn result c1))))"
    unfolding executePayment_def Let_def dmn_def [symmetric] c1_def [symmetric] same url_def ..
  show ?thesis
  proof (cases "assertSpend (budget c) (price req) (Some dmn)")
    case (Some err)
    with run unfold fails [of err] show ?thesis
      by (auto simp: dmn_def)
  next
    case None
    then have ok: "assertSpend (budget c1) (price req) (Some dmn) = None" by (simp add: same)
    have spent1: "0 \<le> totalSpent (budget c1)" using spent by (simp add: same)
    from settle_payment_returns [OF ok spent1] obtain s where s: "parsePrice (price req) = Inr s"
      by blast
    then obtain typedData auth where
      build: "buildTransferAuthorization (wallet_address c) (payTo req) (price req) (client_network c)
                (t_build env) (fresh_nonce env) = Inr (typedData, auth)"
      by (simp add: buildTransferAuthorization_def Let_def)
    show ?thesis
    proof (cases "signTypedData env typedData")
      case (Inl err)
      with run unfold None build fails [of err] show ?thesis by auto
    next
      case (Inr sg)
      show ?thesis
      proof (cases "submitToFacilitatorWithRetry (responses env) url (retryConfig c)")
        case (Inl err)
        with run unfold None build Inr fails [of err] show ?thesis by (auto simp: url_def)
      next
        case sub: (Inr result)
        from settle_payment_returns [OF ok spent1, of env result]
        obtain out c'' s a where
          st: "settle_payment env req dmn result c1 = (Inr out, c'')"
          and f: "receiptToken out = response_receipt result"
            "parsePrice (price req) = Inr s" "BigInt_of_string s = Inr a"
            "receiptCache c'' = cache_set (receiptCache c1) (request_contentId req)
                                   (response_receipt result) None (t_cache env)"
            "budget c'' = (budget c1)\<lparr>totalSpent := totalSpent (budget c1) + a,
                  history := history (budget c1) @
                    [\<lparr>record_contentId = request_contentId req, record_amount = s,
                      record_domain = dmn, record_timestamp = t_record env\<rparr>]\<rparr>"
          by blast
        from run unfold None build Inr sub st have "res = Inr out" "c' = c''" by simp_all
        with f sub show ?thesis unfolding same url_def dmn_def by auto
      qed
    qed
  qed
qed


text \<open>
  A facilitator that cannot be reached: after the two attempts the network error is raised
  again, and neither the cache nor the budget has changed.
\<close>

theorem executePayment_atomic_witness:
  "0 \<le> totalSpent (budget example_client)
   \<and> fst (executePayment unreachable_env example_client example_request) =
       Inl (X402NetworkError
              ''Failed to reach facilitator at http://localhost:4020: connect ECONNREFUSED'')
   \<and> receiptCache (snd (executePayment unreachable_env example_client example_request)) =
       receiptCache example_client
   \<and> budget (snd (executePayment unreachable_env example_client example_request)) =
       budget example_client
   \<and> cache (receiptCache (snd (executePayment unreachable_env example_client example_request)))
        ''article-1'' = None"
proof -
  obtain res c' where run: "executePayment unreachable_env example_client example_request = (res, c')"
    by (cases "executePayment unreachable_env example_client example_request")
  have spent: "0 \<le> totalSpent (budget example_client)"
    by (simp add: example_client_def new_BudgetManager_def)
  have units: "price_units ''0.01'' = Inr 10000" "price_units ''1.00'' = Inr 1000000"
    "price_units ''1000.00'' = Inr 1000000000"
    by (simp_all add: price_units_def parsePrice_examples str_eval)
  have ok: "assertSpend (budget example_client) ''0.01'' (Some ''localhost'') = None"
    by (simp add: assertSpend_def checkSpend_def domain_refused_def check_per_request_def
        check_total_def example_client_def new_BudgetManager_def truthy_def units)
  have sub: "submitToFacilitatorWithRetry (responses unreachable_env) ''http://localhost:4020''
               (retryConfig example_client) =
             Inl (X402NetworkError
                    ''Failed to reach facilitator at http://localhost:4020: connect ECONNREFUSED'')"
    by (simp add: submitToFacilitatorWithRetry_def submit_loop.simps submitToFacilitator_def
        retryable_def unreachable_env_def example_client_def)
  have dm: "extractDomain unreachable_env (request_facilitatorUrl example_request) = ''localhost''"
    by (simp add: extractDomain_def unreachable_env_def)
  have pr: "price example_request = ''0.01''" by (simp add: example_request_def)
  have sg: "signTypedData unreachable_env typedData = Inr ''0xS''" for typedData
    by (simp add: unreachable_env_def)
  have url: "(case truthy (Some (request_facilitatorUrl example_request)) of
                None \<Rightarrow> client_facilitatorUrl example_client | Some u \<Rightarrow> u) = ''http://localhost:4020''"
    by (simp add: truthy_def example_request_def)
  note fact = executePayment_atomic [OF spent run, unfolded dm pr ok sg url sub]
  have res: "res = Inl (X402NetworkError
              ''Failed to reach facilitator at http://localhost:4020: connect ECONNREFUSED'')"
    using fact by (cases res) auto
  with fact run spent show ?thesis
    by (simp add: example_client_def new_ReceiptCache_def)
qed

end
